theory Spec2Isabelle
  imports Main "HOL-Library.AList" "HOL-Library.Sublist"
begin

section \<open>WaitlistMailer (lib/index.ts): data model\<close>

text \<open>
  The class \<^verbatim>\<open>WaitlistMailer\<close> keeps a \<^verbatim>\<open>Set<string>\<close> of addresses, a nodemailer
  transporter and a few configuration fields, and reports what it does through
  events. The embedding is state passing: every method takes the instance and
  returns its result together with the updated instance.

  External collaborators are parameters of the methods that use them:
  \<^item> the Joi schema \<^verbatim>\<open>Joi.string().email({tlds: {allow: false}}).required()\<close> is a
    function from the input to the error message, \<open>None\<close> when Joi reports no error;
  \<^item> \<^verbatim>\<open>transporter.sendMail\<close> is a function of the messages handed to the transport so
    far and of the message, giving the message id or the error it rejects with;
  \<^item> \<^verbatim>\<open>readFile\<close> is a function from the path to the content, or to the error it rejects with;
  \<^item> the MongoDB and Sequelize queries are the fields of a \<open>backend\<close> record.

  Strings are lists of 8-bit characters, so code units above 0xFF are outside
  the embedding. Console output and the delay between retries are not modelled.
  The promises that persist a change (\<^verbatim>\<open>WaitlistModel.create\<close> and its siblings) are
  recorded as requests; their later completion is not part of the call that issued them.
\<close>

datatype storage_type = Local | Db | Sql

text \<open>
  \<^verbatim>\<open>interface MailConfig { host: string; port: number; user: string; pass: string }\<close>.
  The TypeScript type requires the four fields; \<open>None\<close> stands for a field that is
  absent at run time all the same (\<^verbatim>\<open>undefined\<close>).
\<close>

record mailConfig =
  host :: "string option"
  port :: "int option"
  user :: "string option"
  pass :: "string option"

record sqlConfig =
  dialect :: string
  sql_host :: string
  sql_port :: int
  username :: string
  password :: string
  database :: string

record waitlistMailerOptions =
  opt_companyName :: "string option"
  opt_mongoUri :: "string option"
  opt_sqlConfig :: "sqlConfig option"

text \<open>The events of the class, with their payloads, in the order of \<^verbatim>\<open>emit\<close>.\<close>

datatype event =
    OnValidationError string "string option"
  | OnDuplicateEmail string
  | OnEmailAdded string
  | OnEmailRemoved string
  | OnWaitlistCleared
  | OnEmailSent string string
  | OnError string string string
  | OnEmailRetry string int
  | OnBulkConfirmationComplete nat nat

text \<open>The requests sent to the document or relational store by the mutating methods.\<close>

datatype backend_op =
    MongoCreate string
  | SqlCreate string
  | MongoDeleteOne string
  | SqlDestroyOne string
  | MongoDeleteMany
  | SqlDestroyAll

record mailOptions =
  mail_from :: string
  mail_to :: string
  mail_subject :: string
  mail_html :: string

text \<open>
  The instance. \<open>waitlist\<close> is the \<^verbatim>\<open>Set<string>\<close> as the list of its elements in
  insertion order (the order in which a JavaScript Set iterates); \<open>auth_user\<close> is
  \<^verbatim>\<open>transporter.options.auth.user\<close>; \<open>events\<close> are the events emitted so far, oldest
  first; \<open>outbox\<close> are the messages handed to \<^verbatim>\<open>transporter.sendMail\<close>, oldest first;
  \<open>requests\<close> are the persistence requests issued so far.
\<close>

record mailer =
  storage :: storage_type
  waitlist :: "string list"
  companyName :: string
  mongoUri :: "string option"
  sqlConnection :: "sqlConfig option"
  initialized :: bool
  auth_user :: "string option"
  events :: "event list"
  outbox :: "mailOptions list"
  requests :: "backend_op list"

type_synonym joi = "string \<Rightarrow> string option"
type_synonym transport = "mailOptions list \<Rightarrow> mailOptions \<Rightarrow> string + string"

subsection \<open>The JavaScript Set\<close>

definition set_has :: "string list \<Rightarrow> string \<Rightarrow> bool" where
  "set_has xs x = (x \<in> set xs)"

definition set_add :: "string list \<Rightarrow> string \<Rightarrow> string list" where
  "set_add xs x = (if x \<in> set xs then xs else xs @ [x])"

definition set_delete :: "string list \<Rightarrow> string \<Rightarrow> string list" where
  "set_delete xs x = removeAll x xs"

definition set_size :: "string list \<Rightarrow> nat" where
  "set_size xs = length xs"

text \<open>JavaScript truthiness of an optional string: \<^verbatim>\<open>undefined\<close> and \<^verbatim>\<open>''\<close> are falsy.\<close>

fun truthy :: "string option \<Rightarrow> bool" where
  "truthy None = False"
| "truthy (Some s) = (s \<noteq> [])"

definition emit :: "mailer \<Rightarrow> event \<Rightarrow> mailer" where
  "emit s e = s\<lparr>events := events s @ [e]\<rparr>"

definition request :: "mailer \<Rightarrow> backend_op \<Rightarrow> mailer" where
  "request s r = s\<lparr>requests := requests s @ [r]\<rparr>"

subsection \<open>Construction\<close>

datatype error = ConfigurationError string

text \<open>
  The constructor. Its synchronous part stores the fields and creates the
  transporter; the verification of the transporter, the connection to the store
  and the \<^verbatim>\<open>onInitialized\<close> of the local case run later, from callbacks. The body
  has no \<^verbatim>\<open>throw\<close> and no test of the mail configuration, so the result is always
  \<open>Inr\<close>; what the constructors of Sequelize and nodemailer may raise themselves is
  not modelled.

  \<^verbatim>\<open>this.companyName = options?.companyName || 'Your Company Name'\<close>.
\<close>

definition default_company :: "string option \<Rightarrow> string" where
  "default_company c = (case c of None \<Rightarrow> ''Your Company Name''
     | Some n \<Rightarrow> if n = [] then ''Your Company Name'' else n)"

definition connects_db :: "storage_type \<Rightarrow> string option \<Rightarrow> bool" where
  "connects_db st uri = (st = Db \<and> truthy uri)"

definition connects_sql :: "storage_type \<Rightarrow> sqlConfig option \<Rightarrow> bool" where
  "connects_sql st conn = (st = Sql \<and> conn \<noteq> None)"

definition construct ::
  "storage_type \<Rightarrow> mailConfig \<Rightarrow> waitlistMailerOptions option \<Rightarrow> error + mailer" where
  "construct st cfg options =
     (let uri = (case options of None \<Rightarrow> None | Some opt \<Rightarrow> opt_mongoUri opt);
          conn = (case options of None \<Rightarrow> None | Some opt \<Rightarrow> opt_sqlConfig opt)
      in Inr \<lparr> storage = st,
               waitlist = [],
               companyName = default_company
                 (case options of None \<Rightarrow> None | Some opt \<Rightarrow> opt_companyName opt),
               mongoUri = uri,
               sqlConnection = conn,
               initialized = (\<not> connects_db st uri \<and> \<not> connects_sql st conn),
               auth_user = user cfg,
               events = [],
               outbox = [],
               requests = [] \<rparr>)"

definition isInitialized :: "mailer \<Rightarrow> bool" where
  "isInitialized s = initialized s"

subsection \<open>Validation and the mutating methods\<close>

definition validateEmailFormat :: "joi \<Rightarrow> string \<Rightarrow> bool \<times> string option" where
  "validateEmailFormat j email =
     (case j email of Some msg \<Rightarrow> (False, Some msg) | None \<Rightarrow> (True, None))"

definition emailExists :: "mailer \<Rightarrow> string \<Rightarrow> bool" where
  "emailExists s email = set_has (waitlist s) email"

definition handleError :: "mailer \<Rightarrow> string \<Rightarrow> string \<Rightarrow> string \<Rightarrow> mailer" where
  "handleError s email action err = emit s (OnError email action err)"

definition persist :: "mailer \<Rightarrow> backend_op \<Rightarrow> backend_op \<Rightarrow> mailer" where
  "persist s mongo_op sql_op =
     (if connects_db (storage s) (mongoUri s) then request s mongo_op
      else if connects_sql (storage s) (sqlConnection s) then request s sql_op
      else s)"

definition addEmail :: "joi \<Rightarrow> mailer \<Rightarrow> string \<Rightarrow> bool \<times> mailer" where
  "addEmail j s email =
     (let formatCheck = validateEmailFormat j email in
      if \<not> fst formatCheck then (False, emit s (OnValidationError email (snd formatCheck)))
      else if emailExists s email then (False, emit s (OnDuplicateEmail email))
      else (True, persist (emit (s\<lparr>waitlist := set_add (waitlist s) email\<rparr>) (OnEmailAdded email))
                    (MongoCreate email) (SqlCreate email)))"

definition removeEmail :: "mailer \<Rightarrow> string \<Rightarrow> bool \<times> mailer" where
  "removeEmail s email =
     (if \<not> set_has (waitlist s) email then (False, s)
      else (True, persist (emit (s\<lparr>waitlist := set_delete (waitlist s) email\<rparr>) (OnEmailRemoved email))
                    (MongoDeleteOne email) (SqlDestroyOne email)))"

definition getWaitlist :: "mailer \<Rightarrow> string list" where
  "getWaitlist s = waitlist s"

definition clearWaitlist :: "mailer \<Rightarrow> mailer" where
  "clearWaitlist s = persist (emit (s\<lparr>waitlist := []\<rparr>) OnWaitlistCleared) MongoDeleteMany SqlDestroyAll"


subsection \<open>String replacement as \<^verbatim>\<open>String.prototype.replace\<close> does it\<close>

text \<open>
  \<^verbatim>\<open>str.replace(regex, replacement)\<close> with a global regular expression scans the
  string from the left, replaces each match and goes on after it. The replacement
  is not taken literally: \<^verbatim>\<open>$$\<close> stands for a dollar sign, \<^verbatim>\<open>$&\<close> for the matched text,
  \<^verbatim>\<open>$`\<close> for the text before the match and \<^verbatim>\<open>$'\<close> for the text after it. The
  patterns of this class have no capture group, so \<^verbatim>\<open>$1\<close> and \<^verbatim>\<open>$<name>\<close> stay as they
  are. \<open>get_substitution matched preceding following replacement\<close> expands a replacement.
\<close>

fun get_substitution :: "string \<Rightarrow> string \<Rightarrow> string \<Rightarrow> string \<Rightarrow> string" where
  "get_substitution matched preceding following [] = []"
| "get_substitution matched preceding following [c] = [c]"
| "get_substitution matched preceding following (c # d # r) =
     (if c = CHR 0x24 \<and> d = CHR 0x24 then CHR 0x24 # get_substitution matched preceding following r
      else if c = CHR 0x24 \<and> d = CHR 0x26 then matched @ get_substitution matched preceding following r
      else if c = CHR 0x24 \<and> d = CHR 0x60 then preceding @ get_substitution matched preceding following r
      else if c = CHR 0x24 \<and> d = CHR 0x27 then following @ get_substitution matched preceding following r
      else c # get_substitution matched preceding following (d # r))"

text \<open>
  A pattern is a function that gives the length of the match starting at the
  head of its argument, if there is one. The patterns of this class never match
  the empty string. \<open>scanned\<close> is the part of the subject already passed.
\<close>

type_synonym pattern = "string \<Rightarrow> nat option"

fun js_replace_all :: "pattern \<Rightarrow> string \<Rightarrow> string \<Rightarrow> string \<Rightarrow> string" where
  "js_replace_all m replacement scanned [] = []"
| "js_replace_all m replacement scanned (c # cs) =
     (case m (c # cs) of
        None \<Rightarrow> c # js_replace_all m replacement (scanned @ [c]) cs
      | Some k \<Rightarrow>
          get_substitution (take (Suc k) (c # cs)) scanned (drop k cs) replacement
            @ js_replace_all m replacement (scanned @ take (Suc k) (c # cs)) (drop k cs))"

text \<open>A literal pattern, not empty; a match of length \<open>Suc k\<close> is reported as \<open>Some k\<close>.\<close>

definition strip_prefix :: "string \<Rightarrow> string \<Rightarrow> string option" where
  "strip_prefix p s = (if take (length p) s = p then Some (drop (length p) s) else None)"

definition match_literal :: "string \<Rightarrow> pattern" where
  "match_literal lit s =
     (if lit = [] then None
      else case strip_prefix lit s of None \<Rightarrow> None | Some r \<Rightarrow> Some (length lit - 1))"

text \<open>The class \<^verbatim>\<open>\s\<close> on 8-bit characters: tab, line feed, vertical tab, form feed,
  carriage return, space and the no-break space.\<close>

definition is_space :: "char \<Rightarrow> bool" where
  "is_space c = (c \<in> {CHR 0x09, CHR 0x0A, CHR 0x0B, CHR 0x0C, CHR 0x0D, CHR 0x20, CHR 0xA0})"

text \<open>
  \<^verbatim>\<open>new RegExp(`{{\\s*${key}\\s*}}`, 'g')\<close>. The key is spliced into the source of the
  regular expression, so a key with a character that the regular expression
  syntax gives a meaning to is a pattern of its own. The embedding covers the
  keys that are spelled like identifiers (letters, digits and the underscore,
  not starting with a digit: such a key is matched literally, and the object
  lists it in insertion order); for any other key \<open>compile_placeholder\<close> is
  \<open>None\<close> and the method that uses it has no value in the embedding.

  For such a key the match is deterministic: two opening braces, the longest
  run of white space, the key, the longest run of white space, two closing braces.
\<close>

definition is_digit :: "char \<Rightarrow> bool" where
  "is_digit c = (c \<in> set ''0123456789'')"

definition ident_char :: "char \<Rightarrow> bool" where
  "ident_char c =
     (c \<in> set ''abcdefghijklmnopqrstuvwxyzABCDEFGHIJKLMNOPQRSTUVWXYZ_'' \<or> is_digit c)"

definition ident_key :: "string \<Rightarrow> bool" where
  "ident_key k = (case k of [] \<Rightarrow> False | c # r \<Rightarrow> \<not> is_digit c \<and> list_all ident_char k)"

definition match_placeholder :: "string \<Rightarrow> pattern" where
  "match_placeholder key s =
     (case strip_prefix ''{{'' s of None \<Rightarrow> None
      | Some r1 \<Rightarrow>
         (case strip_prefix key (dropWhile is_space r1) of None \<Rightarrow> None
          | Some r2 \<Rightarrow>
             (case strip_prefix ''}}'' (dropWhile is_space r2) of None \<Rightarrow> None
              | Some r3 \<Rightarrow> Some (length s - length r3 - 1))))"

definition compile_placeholder :: "string \<Rightarrow> pattern option" where
  "compile_placeholder key = (if ident_key key then Some (match_placeholder key) else None)"

subsection \<open>Sending\<close>

text \<open>
  \<^verbatim>\<open>sendMail\<close>: without a truthy \<^verbatim>\<open>auth.user\<close> the transport is not contacted. A
  message handed to the transport is appended to \<open>outbox\<close> whatever the outcome.
\<close>

definition sendMail :: "transport \<Rightarrow> mailer \<Rightarrow> string \<Rightarrow> string \<Rightarrow> string \<Rightarrow> bool \<times> mailer" where
  "sendMail tr s email subject htmlContent =
     (if \<not> truthy (auth_user s)
      then (False, handleError s email ''sendMail'' ''Transporter not configured'')
      else
        (let mailOpts = \<lparr> mail_from = [CHR 0x22] @ companyName s @ [CHR 0x22] @ '' <''
                                        @ the (auth_user s) @ ''>'',
                          mail_to = email,
                          mail_subject = subject,
                          mail_html = htmlContent \<rparr>;
             s1 = s\<lparr>outbox := outbox s @ [mailOpts]\<rparr>
         in case tr (outbox s) mailOpts of
              Inr messageId \<Rightarrow> (True, emit s1 (OnEmailSent email messageId))
            | Inl err \<Rightarrow> (False, handleError s1 email ''sendMail'' err)))"

definition sendConfirmation ::
  "transport \<Rightarrow> mailer \<Rightarrow> string \<Rightarrow> (string \<Rightarrow> string) \<Rightarrow> (string \<Rightarrow> string) \<Rightarrow> bool \<times> mailer" where
  "sendConfirmation tr s email subjectTemplate bodyTemplate =
     (if \<not> set_has (waitlist s) email then (False, s)
      else
        (let subject = subjectTemplate email;
             htmlContent = js_replace_all (match_literal ''[Company Name]'') (companyName s) []
                             (bodyTemplate email)
         in sendMail tr s email subject htmlContent))"

text \<open>
  \<^verbatim>\<open>{ email, companyName: this.companyName, ...replacements }\<close>: an object is the list
  of its entries in property order; a spread key that is already there keeps its
  place and takes the new value, a new key goes to the end.
\<close>

definition templateVariables ::
  "string \<Rightarrow> string \<Rightarrow> (string \<times> string) list \<Rightarrow> (string \<times> string) list" where
  "templateVariables email company replacements =
     fold (\<lambda>(k, v) al. AList.update k v al) replacements
       [(''email'', email), (''companyName'', company)]"

fun substitute :: "(string \<times> string) list \<Rightarrow> string \<Rightarrow> string option" where
  "substitute [] htmlContent = Some htmlContent"
| "substitute ((key, v) # entries) htmlContent =
     (case compile_placeholder key of
        None \<Rightarrow> None
      | Some regex \<Rightarrow> substitute entries (js_replace_all regex v [] htmlContent))"

type_synonym read_file = "string \<Rightarrow> string + string"

definition sendConfirmationFromFile ::
  "read_file \<Rightarrow> transport \<Rightarrow> mailer \<Rightarrow> string \<Rightarrow> (string \<Rightarrow> string) \<Rightarrow> string
     \<Rightarrow> (string \<times> string) list \<Rightarrow> (bool \<times> mailer) option" where
  "sendConfirmationFromFile readFile tr s email subjectTemplate templateFilePath replacements =
     (if \<not> set_has (waitlist s) email then Some (False, s)
      else
        (case readFile templateFilePath of
           Inl err \<Rightarrow> Some (False, handleError s email ''sendConfirmationFromFile'' err)
         | Inr content \<Rightarrow>
            (case substitute (templateVariables email (companyName s) replacements) content of
               None \<Rightarrow> None
             | Some htmlContent \<Rightarrow>
                 Some (sendMail tr s email (subjectTemplate email) htmlContent))))"

text \<open>
  \<^verbatim>\<open>for (let attempt = 0; attempt <= retries; attempt++)\<close>: the loop of
  \<^verbatim>\<open>sendConfirmationWithRetry\<close>, from the value of \<open>attempt\<close> on.
\<close>

function retry_loop ::
  "transport \<Rightarrow> (string \<Rightarrow> string) \<Rightarrow> (string \<Rightarrow> string) \<Rightarrow> string \<Rightarrow> int \<Rightarrow> int \<Rightarrow> mailer
     \<Rightarrow> bool \<times> mailer" where
  "retry_loop tr subjectTemplate bodyTemplate email retries attempt s =
     (if attempt \<le> retries then
        (let result = sendConfirmation tr s email subjectTemplate bodyTemplate in
         if fst result then (True, snd result)
         else retry_loop tr subjectTemplate bodyTemplate email retries (attempt + 1)
                (emit (snd result) (OnEmailRetry email (attempt + 1))))
      else (False, s))"
  by pat_completeness auto
termination
  by (relation "measure (\<lambda>(tr, st, bt, email, retries, attempt, s). nat (retries + 1 - attempt))")
     auto

declare retry_loop.simps [simp del]

definition sendConfirmationWithRetry ::
  "transport \<Rightarrow> mailer \<Rightarrow> string \<Rightarrow> (string \<Rightarrow> string) \<Rightarrow> (string \<Rightarrow> string) \<Rightarrow> int
     \<Rightarrow> bool \<times> mailer" where
  "sendConfirmationWithRetry tr s email subjectTemplate bodyTemplate retries =
     retry_loop tr subjectTemplate bodyTemplate email retries 0 s"

text \<open>The loop of \<^verbatim>\<open>sendBulkConfirmation\<close> over the snapshot of the waitlist.\<close>

fun bulk_loop ::
  "transport \<Rightarrow> (string \<Rightarrow> string) \<Rightarrow> (string \<Rightarrow> string) \<Rightarrow> int \<Rightarrow> string list \<Rightarrow> nat \<Rightarrow> mailer
     \<Rightarrow> nat \<times> mailer" where
  "bulk_loop tr subjectTemplate bodyTemplate retries [] successCount s = (successCount, s)"
| "bulk_loop tr subjectTemplate bodyTemplate retries (email # emails) successCount s =
     (let result = sendConfirmationWithRetry tr s email subjectTemplate bodyTemplate retries in
      bulk_loop tr subjectTemplate bodyTemplate retries emails
        (if fst result then successCount + 1 else successCount) (snd result))"

definition sendBulkConfirmation ::
  "transport \<Rightarrow> mailer \<Rightarrow> (string \<Rightarrow> string) \<Rightarrow> (string \<Rightarrow> string) \<Rightarrow> int \<Rightarrow> nat \<times> mailer" where
  "sendBulkConfirmation tr s subjectTemplate bodyTemplate retries =
     (let emails = getWaitlist s;
          finished = bulk_loop tr subjectTemplate bodyTemplate retries emails 0 s
      in (fst finished,
          emit (snd finished) (OnBulkConfirmationComplete (fst finished) (length emails))))"

subsection \<open>Queries\<close>

text \<open>
  Dates are milliseconds since the epoch; an omitted bound is \<open>None\<close>. The
  queries of the two stores are functions that give the rows or the error the
  promise rejects with.
\<close>

datatype sql_where = WhereAll | WhereBetween int int | WhereGte int | WhereLte int

record backend =
  mongo_find :: "string \<Rightarrow> string + string list"
  sql_findAll :: "string \<Rightarrow> string + string list"
  mongo_countDocuments :: "int option \<Rightarrow> int option \<Rightarrow> string + nat"
  sql_count :: "sql_where \<Rightarrow> string + nat"

definition toLowerCase_char :: "char \<Rightarrow> char" where
  "toLowerCase_char c =
     (let n = (of_char c :: nat) in
      if (65 \<le> n \<and> n \<le> 90) \<or> (192 \<le> n \<and> n \<le> 222 \<and> n \<noteq> 215) then char_of (n + 32) else c)"

definition toLowerCase :: "string \<Rightarrow> string" where
  "toLowerCase s = map toLowerCase_char s"

fun js_includes :: "string \<Rightarrow> string \<Rightarrow> bool" where
  "js_includes [] p = (p = [])"
| "js_includes (c # cs) p = (take (length p) (c # cs) = p \<or> js_includes cs p)"

definition findEmailsByPattern :: "backend \<Rightarrow> mailer \<Rightarrow> string \<Rightarrow> string list \<times> mailer" where
  "findEmailsByPattern be s pat =
     (if storage s = Local then
        (filter (\<lambda>email. js_includes (toLowerCase email) (toLowerCase pat)) (waitlist s), s)
      else if connects_db (storage s) (mongoUri s) then
        (case mongo_find be pat of
           Inr docs \<Rightarrow> (docs, s)
         | Inl err \<Rightarrow> ([], handleError s ''waitlist'' ''findEmailsByPattern'' err))
      else if connects_sql (storage s) (sqlConnection s) then
        (case sql_findAll be (''%'' @ pat @ ''%'') of
           Inr docs \<Rightarrow> (docs, s)
         | Inl err \<Rightarrow> ([], handleError s ''waitlist'' ''findEmailsByPattern'' err))
      else ([], s))"

definition sql_where_of :: "int option \<Rightarrow> int option \<Rightarrow> sql_where" where
  "sql_where_of startDate endDate =
     (case (startDate, endDate) of
        (Some a, Some b) \<Rightarrow> WhereBetween a b
      | (Some a, None) \<Rightarrow> WhereGte a
      | (None, Some b) \<Rightarrow> WhereLte b
      | (None, None) \<Rightarrow> WhereAll)"

definition countWaitlistByDate ::
  "backend \<Rightarrow> mailer \<Rightarrow> int option \<Rightarrow> int option \<Rightarrow> nat \<times> mailer" where
  "countWaitlistByDate be s startDate endDate =
     (if storage s = Local then (set_size (waitlist s), s)
      else if connects_db (storage s) (mongoUri s) then
        (case mongo_countDocuments be startDate endDate of
           Inr n \<Rightarrow> (n, s)
         | Inl err \<Rightarrow> (0, handleError s ''waitlist'' ''countWaitlistByDate'' err))
      else if connects_sql (storage s) (sqlConnection s) then
        (case sql_count be (sql_where_of startDate endDate) of
           Inr n \<Rightarrow> (n, s)
         | Inl err \<Rightarrow> (0, handleError s ''waitlist'' ''countWaitlistByDate'' err))
      else (0, s))"

subsection \<open>Sequences of mutating calls\<close>

datatype operation = AddEmail string | RemoveEmail string | ClearWaitlist

fun apply_operation :: "joi \<Rightarrow> mailer \<Rightarrow> operation \<Rightarrow> mailer" where
  "apply_operation j s (AddEmail email) = snd (addEmail j s email)"
| "apply_operation j s (RemoveEmail email) = snd (removeEmail s email)"
| "apply_operation j s ClearWaitlist = clearWaitlist s"

fun run :: "joi \<Rightarrow> mailer \<Rightarrow> operation list \<Rightarrow> mailer" where
  "run j s [] = s"
| "run j s (operation # rest) = run j (apply_operation j s operation) rest"

definition accepted :: "joi \<Rightarrow> string \<Rightarrow> bool" where
  "accepted j email = fst (validateEmailFormat j email)"

text \<open>The events that a call added to the instance.\<close>

definition emitted :: "mailer \<Rightarrow> mailer \<Rightarrow> event list" where
  "emitted s s' = drop (length (events s)) (events s')"

fun is_sent :: "event \<Rightarrow> bool" where
  "is_sent (OnEmailSent email info) = True"
| "is_sent e = False"

fun is_bulk_complete :: "event \<Rightarrow> bool" where
  "is_bulk_complete (OnBulkConfirmationComplete successCount n) = True"
| "is_bulk_complete e = False"

text \<open>The messages that a call handed to the transport.\<close>

definition handed_over :: "mailer \<Rightarrow> mailer \<Rightarrow> mailOptions list" where
  "handed_over s s' = drop (length (outbox s)) (outbox s')"

text \<open>
  How many of the messages \<open>ms\<close> the transport accepts when it is given them one
  after the other, \<open>history\<close> being what it was given before.
\<close>

fun delivered :: "transport \<Rightarrow> mailOptions list \<Rightarrow> mailOptions list \<Rightarrow> nat" where
  "delivered tr history [] = 0"
| "delivered tr history (m # ms) =
     (case tr history m of Inl err \<Rightarrow> 0 | Inr messageId \<Rightarrow> 1) + delivered tr (history @ [m]) ms"

text \<open>
  What the specification says of the bulk send, to compare \<open>sendBulkConfirmation\<close>
  with: \<open>sendConfirmationWithRetry\<close> is applied to every address in turn, each call
  starting from the instance as the call before left it, and the results are
  kept, one per address.
\<close>

fun send_each ::
  "transport \<Rightarrow> (string \<Rightarrow> string) \<Rightarrow> (string \<Rightarrow> string) \<Rightarrow> int \<Rightarrow> string list \<Rightarrow> mailer
     \<Rightarrow> bool list \<times> mailer" where
  "send_each tr subjectTemplate bodyTemplate retries [] s = ([], s)"
| "send_each tr subjectTemplate bodyTemplate retries (email # emails) s =
     (let first = sendConfirmationWithRetry tr s email subjectTemplate bodyTemplate retries;
          others = send_each tr subjectTemplate bodyTemplate retries emails (snd first)
      in (fst first # fst others, snd others))"

subsection \<open>The array of \<^verbatim>\<open>getWaitlist\<close> in a store\<close>

text \<open>
  \<^verbatim>\<open>getWaitlist\<close> returns \<^verbatim>\<open>Array.from(this.waitlist)\<close>. Whether the caller can reach
  the Set through the array is a question about objects, so here the Set and the
  arrays live in a store: a list of objects, a reference being an index in it.
  \<^verbatim>\<open>Array.from\<close> allocates a new array with the elements of the Set in iteration
  order. \<open>array_assign\<close> is any mutation of an array by its holder: it replaces
  the elements of the array at a reference, and does nothing to an object that
  is not an array.
\<close>

datatype js_object = SetObject "string list" | ArrayObject "string list"

type_synonym store = "js_object list"
type_synonym ref = nat

definition lookup :: "store \<Rightarrow> ref \<Rightarrow> js_object option" where
  "lookup h r = (if r < length h then Some (h ! r) else None)"

definition alloc :: "store \<Rightarrow> js_object \<Rightarrow> ref \<times> store" where
  "alloc h obj = (length h, h @ [obj])"

definition array_from :: "store \<Rightarrow> ref \<Rightarrow> (ref \<times> store) option" where
  "array_from h r =
     (case lookup h r of
        Some (SetObject xs) \<Rightarrow> Some (alloc h (ArrayObject xs))
      | Some (ArrayObject xs) \<Rightarrow> Some (alloc h (ArrayObject xs))
      | None \<Rightarrow> None)"

definition getWaitlist_ref :: "ref \<Rightarrow> store \<Rightarrow> (ref \<times> store) option" where
  "getWaitlist_ref waitlist_ref h = array_from h waitlist_ref"

definition array_assign :: "store \<Rightarrow> ref \<Rightarrow> string list \<Rightarrow> store" where
  "array_assign h r ys =
     (case lookup h r of Some (ArrayObject xs) \<Rightarrow> h[r := ArrayObject ys] | _ \<Rightarrow> h)"

definition elements :: "store \<Rightarrow> ref \<Rightarrow> string list option" where
  "elements h r =
     (case lookup h r of
        Some (SetObject xs) \<Rightarrow> Some xs
      | Some (ArrayObject xs) \<Rightarrow> Some xs
      | None \<Rightarrow> None)"

subsection \<open>Templates as text and placeholders\<close>

text \<open>
  What the specification says of a template: it is text with tokens
  \<^verbatim>\<open>{{ key }}\<close> in it, and each token whose key has a value is replaced by that
  value. A template is described by its pieces; \<open>Placeholder a k b\<close> is the token
  with key \<open>k\<close> and the white space \<open>a\<close> and \<open>b\<close> around it. The text between
  tokens has no two opening braces in a row and does not end in an opening brace.
  \<open>fill\<close> is the substitution of the specification, done in one step.
\<close>

datatype piece = Text string | Placeholder string string string

fun render_piece :: "piece \<Rightarrow> string" where
  "render_piece (Text t) = t"
| "render_piece (Placeholder a k b) = ''{{'' @ a @ k @ b @ ''}}''"

definition render :: "piece list \<Rightarrow> string" where
  "render ps = concat (map render_piece ps)"

fun plain_text :: "string \<Rightarrow> bool" where
  "plain_text [] = True"
| "plain_text [c] = (c \<noteq> CHR ''{'')"
| "plain_text (c # d # r) = (\<not> (c = CHR ''{'' \<and> d = CHR ''{'') \<and> plain_text (d # r))"

fun wf_piece :: "piece \<Rightarrow> bool" where
  "wf_piece (Text t) = plain_text t"
| "wf_piece (Placeholder a k b) = (list_all is_space a \<and> ident_key k \<and> list_all is_space b)"

text \<open>A value that \<^verbatim>\<open>replace\<close> inserts as it is and that brings no token with it.\<close>

definition safe_value :: "string \<Rightarrow> bool" where
  "safe_value v = (plain_text v \<and> CHR 0x24 \<notin> set v)"

fun fill :: "(string \<rightharpoonup> string) \<Rightarrow> piece \<Rightarrow> piece" where
  "fill vars (Text t) = Text t"
| "fill vars (Placeholder a k b) =
     (case vars k of Some v \<Rightarrow> Text v | None \<Rightarrow> Placeholder a k b)"

subsection \<open>Collaborators for concrete evaluation\<close>

text \<open>
  A stand-in for the Joi schema, used where a property is evaluated at a concrete
  input: it accepts a string without white space that has exactly one \<^verbatim>\<open>@\<close>, with
  something before and after it. On the addresses used below it agrees with Joi.
\<close>

definition joi_sample :: joi where
  "joi_sample email =
     (if count_list email (CHR ''@'') = 1 \<and> take 1 email \<noteq> ''@''
         \<and> take 1 (rev email) \<noteq> ''@'' \<and> \<not> list_ex is_space email
      then None else Some ''must be a valid email'')"

text \<open>Transports: one that always delivers, one that always fails, and one that
  fails the first message it is given and delivers every later one.\<close>

definition always_succeeds :: transport where
  "always_succeeds history m = Inr ''mock-id''"

definition always_fails :: transport where
  "always_fails history m = Inl ''Failed''"

definition fails_once :: transport where
  "fails_once history m = (if history = [] then Inl ''Failed'' else Inr ''mock-id'')"

text \<open>A mail configuration with its four fields, and a local instance built from it.\<close>

definition sample_config :: mailConfig where
  "sample_config = \<lparr> host = Some ''smtp.example.com'', port = Some 587,
                      user = Some ''test@example.com'', pass = Some ''password'' \<rparr>"

definition sample_options :: waitlistMailerOptions where
  "sample_options = \<lparr> opt_companyName = Some ''TestCo'', opt_mongoUri = None,
                       opt_sqlConfig = None \<rparr>"

definition local_mailer :: mailer where
  "local_mailer = \<lparr> storage = Local, waitlist = [], companyName = ''TestCo'',
                     mongoUri = None, sqlConnection = None, initialized = True,
                     auth_user = Some ''test@example.com'', events = [], outbox = [],
                     requests = [] \<rparr>"

text \<open>A store that is not connected: every query is rejected.\<close>

definition no_backend :: backend where
  "no_backend = \<lparr> mongo_find = (\<lambda>p. Inl ''not connected''),
                    sql_findAll = (\<lambda>p. Inl ''not connected''),
                    mongo_countDocuments = (\<lambda>a b. Inl ''not connected''),
                    sql_count = (\<lambda>w. Inl ''not connected'') \<rparr>"

text \<open>The local instance with some addresses already in its waitlist.\<close>

definition mailer_with :: "string list \<Rightarrow> mailer" where
  "mailer_with emails = local_mailer\<lparr>waitlist := emails\<rparr>"

text \<open>An instance on the document store, as the constructor leaves it: the
  connection is still to be made, so \<open>initialized\<close> is false.\<close>

definition db_options :: waitlistMailerOptions where
  "db_options = \<lparr> opt_companyName = Some ''Test Company'',
                   opt_mongoUri = Some ''mongodb://localhost:27017/testdb'',
                   opt_sqlConfig = None \<rparr>"

definition db_mailer :: mailer where
  "db_mailer = \<lparr> storage = Db, waitlist = [], companyName = ''Test Company'',
                  mongoUri = Some ''mongodb://localhost:27017/testdb'', sqlConnection = None,
                  initialized = False, auth_user = Some ''test@example.com'', events = [],
                  outbox = [], requests = [] \<rparr>"

text \<open>The template of the README, with two blanks around one key and a token
  that no replacement names.\<close>

definition welcome_template :: "piece list" where
  "welcome_template =
     [Text ''<h1>Welcome, '', Placeholder [] ''email'' [], Text ''!</h1><p>Thanks for joining '',
      Placeholder '' '' ''companyName'' '' '', Text ''. '', Placeholder [] ''customMessage'' [],
      Text '' '', Placeholder [] ''unknown'' [], Text ''</p>'']"

section \<open>Properties\<close>

lemma waitlist_emit [simp]: "waitlist (emit s e) = waitlist s"
  by (simp add: emit_def)

lemma waitlist_persist [simp]: "waitlist (persist s a b) = waitlist s"
  by (simp add: persist_def request_def)

lemma events_persist [simp]: "events (persist s a b) = events s"
  by (simp add: persist_def request_def)

lemma events_emit [simp]: "events (emit s e) = events s @ [e]"
  by (simp add: emit_def)

text \<open>
  C4. For an address \<open>x\<close> that the validator accepts and that is not in the waitlist,
  two calls of \<open>addEmail x\<close> in sequence return true and then false; the second call
  leaves the set as the first call left it and emits \<open>onDuplicateEmail\<close> and nothing
  else, so no \<open>onEmailAdded\<close>.
\<close>

theorem addEmail_twice:
  assumes "j x = None" and "\<not> set_has (waitlist s) x"
  shows "fst (addEmail j s x) = True
       \<and> fst (addEmail j (snd (addEmail j s x)) x) = False
       \<and> waitlist (snd (addEmail j (snd (addEmail j s x)) x)) = waitlist (snd (addEmail j s x))
       \<and> events (snd (addEmail j (snd (addEmail j s x)) x))
           = events (snd (addEmail j s x)) @ [OnDuplicateEmail x]
       \<and> events (snd (addEmail j s x)) = events s @ [OnEmailAdded x]
       \<and> waitlist (snd (addEmail j s x)) = waitlist s @ [x]"
  using assms
  by (simp add: addEmail_def validateEmailFormat_def emailExists_def set_has_def set_add_def)

theorem addEmail_twice_witness:
  "joi_sample ''dup@test.com'' = None \<and> \<not> set_has (waitlist local_mailer) ''dup@test.com''
   \<and> fst (addEmail joi_sample local_mailer ''dup@test.com'') = True
   \<and> fst (addEmail joi_sample (snd (addEmail joi_sample local_mailer ''dup@test.com''))
           ''dup@test.com'') = False
   \<and> events (snd (addEmail joi_sample (snd (addEmail joi_sample local_mailer ''dup@test.com''))
           ''dup@test.com''))
       = [OnEmailAdded ''dup@test.com'', OnDuplicateEmail ''dup@test.com'']"
proof -
  have a: "joi_sample ''dup@test.com'' = None"
    by (simp add: joi_sample_def is_space_def)
  have b: "\<not> set_has (waitlist local_mailer) ''dup@test.com''"
    by (simp add: set_has_def local_mailer_def)
  have c: "events local_mailer = []"
    by (simp add: local_mailer_def)
  show ?thesis
    using addEmail_twice [of joi_sample "''dup@test.com''" local_mailer, OF a b] a b c by simp
qed


lemma waitlist_addEmail:
  "waitlist (snd (addEmail j s email))
     = (if accepted j email \<and> email \<notin> set (waitlist s) then waitlist s @ [email] else waitlist s)"
  by (simp add: addEmail_def accepted_def set_add_def emailExists_def set_has_def Let_def)

lemma waitlist_removeEmail:
  "waitlist (snd (removeEmail s email)) = removeAll email (waitlist s)"
  by (simp add: removeEmail_def set_delete_def set_has_def)

lemma waitlist_clearWaitlist: "waitlist (clearWaitlist s) = []"
  by (simp add: clearWaitlist_def)

lemma apply_operation_accepted:
  assumes "\<forall>e\<in>set (waitlist s). accepted j e"
  shows "\<forall>e\<in>set (waitlist (apply_operation j s operation)). accepted j e"
proof (cases operation)
  case (AddEmail email)
  then show ?thesis
    using assms by (simp add: waitlist_addEmail)
next
  case (RemoveEmail email)
  then show ?thesis
    using assms by (simp add: waitlist_removeEmail)
next
  case ClearWaitlist
  then show ?thesis by (simp add: waitlist_clearWaitlist)
qed

lemma distinct_run: "distinct (waitlist s) \<Longrightarrow> distinct (waitlist (run j s ops))"
proof (induction ops arbitrary: s)
  case Nil
  then show ?case by simp
next
  case (Cons operation rest)
  have "distinct (waitlist (apply_operation j s operation))"
    using Cons.prems
    by (cases operation)
       (simp_all add: waitlist_addEmail waitlist_removeEmail waitlist_clearWaitlist distinct_removeAll)
  then show ?case using Cons.IH by simp
qed

text \<open>
  C7. For an address that is not in the waitlist, \<open>sendConfirmation\<close> and
  \<open>sendConfirmationFromFile\<close> return false and leave the instance as it is: no
  message is handed to the transport, and no event is emitted.
\<close>

theorem send_absent_address:
  assumes "\<not> set_has (waitlist s) email"
  shows "sendConfirmation tr s email subjectTemplate bodyTemplate = (False, s)
       \<and> sendConfirmationFromFile readFile tr s email subjectTemplate path replacements
           = Some (False, s)
       \<and> outbox (snd (sendConfirmation tr s email subjectTemplate bodyTemplate)) = outbox s"
  using assms by (simp add: sendConfirmation_def sendConfirmationFromFile_def)

theorem send_absent_address_witness:
  "\<not> set_has (waitlist local_mailer) ''nobody@x.com''
   \<and> sendConfirmation always_succeeds local_mailer ''nobody@x.com'' (\<lambda>e. ''Hi'') (\<lambda>e. ''Welcome'')
       = (False, local_mailer)
   \<and> sendConfirmationFromFile (\<lambda>p. Inr ''{{email}}'') always_succeeds local_mailer
         ''nobody@x.com'' (\<lambda>e. ''Hi'') ''mock/path.html'' [] = Some (False, local_mailer)
   \<and> outbox local_mailer = []"
proof -
  have a: "\<not> set_has (waitlist local_mailer) ''nobody@x.com''"
    by (simp add: set_has_def local_mailer_def)
  have b: "outbox local_mailer = []"
    by (simp add: local_mailer_def)
  show ?thesis
    using send_absent_address [of local_mailer "''nobody@x.com''", OF a] a b by simp
qed

text \<open>
  C8. With the local storage \<open>countWaitlistByDate\<close> returns the size of the in-memory
  set whatever the two bounds are, given or omitted, and changes nothing.
\<close>

theorem countWaitlistByDate_local:
  assumes "storage s = Local"
  shows "countWaitlistByDate be s startDate endDate = (set_size (waitlist s), s)
       \<and> fst (countWaitlistByDate be s startDate endDate)
           = fst (countWaitlistByDate be s None None)"
  using assms by (simp add: countWaitlistByDate_def)

theorem countWaitlistByDate_local_witness:
  "storage (snd (addEmail joi_sample local_mailer ''test@example.com'')) = Local
   \<and> fst (countWaitlistByDate no_backend (snd (addEmail joi_sample local_mailer ''test@example.com''))
            (Some 1672531200000) (Some 1703980800000)) = 1"
proof -
  have a: "storage (snd (addEmail joi_sample local_mailer ''test@example.com'')) = Local"
    by code_simp
  have b: "set_size (waitlist (snd (addEmail joi_sample local_mailer ''test@example.com''))) = 1"
    by code_simp
  show ?thesis
    using countWaitlistByDate_local [OF a, of no_backend "Some 1672531200000" "Some 1703980800000"] a b
    by simp
qed

lemma run_accepted:
  assumes "\<forall>e\<in>set (waitlist s). accepted j e"
  shows "\<forall>e\<in>set (waitlist (run j s ops)). accepted j e"
  using assms
proof (induction ops arbitrary: s)
  case Nil
  then show ?case by simp
next
  case (Cons operation rest)
  from Cons.prems have "\<forall>e\<in>set (waitlist (apply_operation j s operation)). accepted j e"
    by (rule apply_operation_accepted)
  then have "\<forall>e\<in>set (waitlist (run j (apply_operation j s operation) rest)). accepted j e"
    by (rule Cons.IH)
  then show ?case by simp
qed

text \<open>
  C9. Every string in the waitlist has been accepted by the validator: if that
  holds of an instance, it holds after any sequence of \<open>addEmail\<close>, \<open>removeEmail\<close>
  and \<open>clearWaitlist\<close> calls, since \<open>addEmail\<close> inserts only after the validation
  succeeded and the other two only remove. It holds of a new local instance,
  whose waitlist is empty, and so of every instance reached from one by these
  calls.
\<close>

theorem waitlist_only_accepted:
  "((\<forall>e\<in>set (waitlist s). accepted j e) \<longrightarrow> (\<forall>e\<in>set (waitlist (run j s ops)). accepted j e))
   \<and> (\<forall>e\<in>set (waitlist (run j (projr (construct Local cfg options)) ops)). accepted j e)"
proof
  show "(\<forall>e\<in>set (waitlist s). accepted j e) \<longrightarrow> (\<forall>e\<in>set (waitlist (run j s ops)). accepted j e)"
    using run_accepted by blast
next
  have "waitlist (projr (construct Local cfg options)) = []"
    by (simp add: construct_def Let_def)
  then have "\<forall>e\<in>set (waitlist (projr (construct Local cfg options))). accepted j e"
    by simp
  then show "\<forall>e\<in>set (waitlist (run j (projr (construct Local cfg options)) ops)). accepted j e"
    by (rule run_accepted)
qed

theorem waitlist_only_accepted_witness:
  "waitlist local_mailer = []
   \<and> waitlist (run joi_sample local_mailer
        [AddEmail ''test@local.com'', AddEmail ''invalid-email'', AddEmail ''b@x.com'',
         RemoveEmail ''test@local.com'']) = [''b@x.com'']
   \<and> accepted joi_sample ''b@x.com'' \<and> \<not> accepted joi_sample ''invalid-email''"
proof -
  have a: "waitlist local_mailer = []"
    by (simp add: local_mailer_def)
  have b: "waitlist (run joi_sample local_mailer
        [AddEmail ''test@local.com'', AddEmail ''invalid-email'', AddEmail ''b@x.com'',
         RemoveEmail ''test@local.com'']) = [''b@x.com'']"
    by code_simp
  have c: "\<not> accepted joi_sample ''invalid-email''"
    by code_simp
  have "\<forall>e\<in>set (waitlist local_mailer). accepted joi_sample e"
    using a by simp
  then have "\<forall>e\<in>set (waitlist (run joi_sample local_mailer
        [AddEmail ''test@local.com'', AddEmail ''invalid-email'', AddEmail ''b@x.com'',
         RemoveEmail ''test@local.com''])). accepted joi_sample e"
    using waitlist_only_accepted [of local_mailer joi_sample
        "[AddEmail ''test@local.com'', AddEmail ''invalid-email'', AddEmail ''b@x.com'',
         RemoveEmail ''test@local.com'']", THEN conjunct1]
    by (rule mp [rotated])
  then have "accepted joi_sample ''b@x.com''"
    unfolding b by simp
  with a b c show ?thesis
    by blast
qed

text \<open>
  C10. \<open>getWaitlist\<close> returns a new array: its reference was not in use before the
  call, its elements are those of the Set at the time of the call, and the Set is
  as it was. Whatever the caller then assigns to the array, the Set keeps its
  elements. A second call returns another reference, to an array with the same
  elements.
\<close>

theorem getWaitlist_fresh_snapshot:
  assumes "lookup h w = Some (SetObject xs)"
  shows "getWaitlist_ref w h = Some (length h, h @ [ArrayObject xs])
       \<and> lookup h (length h) = None
       \<and> elements (h @ [ArrayObject xs]) (length h) = Some xs
       \<and> elements (h @ [ArrayObject xs]) w = Some xs
       \<and> lookup (array_assign (h @ [ArrayObject xs]) (length h) ys) w = Some (SetObject xs)
       \<and> elements (array_assign (h @ [ArrayObject xs]) (length h) ys) (length h) = Some ys
       \<and> getWaitlist_ref w (h @ [ArrayObject xs])
           = Some (Suc (length h), h @ [ArrayObject xs, ArrayObject xs])
       \<and> elements (h @ [ArrayObject xs, ArrayObject xs]) (Suc (length h))
           = elements (h @ [ArrayObject xs, ArrayObject xs]) (length h)
       \<and> Suc (length h) \<noteq> length h
       \<and> set (getWaitlist s) = set (waitlist s)"
proof -
  from assms have w: "w < length h" and hw: "h ! w = SetObject xs"
    by (auto simp: lookup_def split: if_splits)
  have 1: "getWaitlist_ref w h = Some (length h, h @ [ArrayObject xs])"
    using assms by (simp add: getWaitlist_ref_def array_from_def alloc_def)
  have 2: "lookup h (length h) = None"
    by (simp add: lookup_def)
  have 3: "elements (h @ [ArrayObject xs]) (length h) = Some xs"
    by (simp add: elements_def lookup_def)
  have 4: "elements (h @ [ArrayObject xs]) w = Some xs"
    using w hw by (simp add: elements_def lookup_def nth_append)
  have 5: "lookup (array_assign (h @ [ArrayObject xs]) (length h) ys) w = Some (SetObject xs)"
    using w hw by (simp add: array_assign_def lookup_def nth_append)
  have 6: "elements (array_assign (h @ [ArrayObject xs]) (length h) ys) (length h) = Some ys"
    by (simp add: array_assign_def elements_def lookup_def)
  have 7: "getWaitlist_ref w (h @ [ArrayObject xs])
           = Some (Suc (length h), h @ [ArrayObject xs, ArrayObject xs])"
    using w hw by (simp add: getWaitlist_ref_def array_from_def alloc_def lookup_def nth_append)
  have 8: "elements (h @ [ArrayObject xs, ArrayObject xs]) (Suc (length h))
           = elements (h @ [ArrayObject xs, ArrayObject xs]) (length h)"
    by (simp add: elements_def lookup_def nth_append)
  have 9: "set (getWaitlist s) = set (waitlist s)"
    by (simp add: getWaitlist_def)
  from 1 2 3 4 5 6 7 8 9 show ?thesis
    by simp
qed

theorem getWaitlist_fresh_snapshot_witness:
  "lookup [SetObject [''a@x.com'', ''b@x.com'']] 0 = Some (SetObject [''a@x.com'', ''b@x.com''])
   \<and> getWaitlist_ref 0 [SetObject [''a@x.com'', ''b@x.com'']]
       = Some (1, [SetObject [''a@x.com'', ''b@x.com''], ArrayObject [''a@x.com'', ''b@x.com'']])
   \<and> lookup (array_assign [SetObject [''a@x.com'', ''b@x.com''], ArrayObject [''a@x.com'', ''b@x.com'']]
         1 [''z'']) 0 = Some (SetObject [''a@x.com'', ''b@x.com''])"
proof -
  have a: "lookup [SetObject [''a@x.com'', ''b@x.com'']] 0 = Some (SetObject [''a@x.com'', ''b@x.com''])"
    by (simp add: lookup_def)
  show ?thesis
    using getWaitlist_fresh_snapshot [OF a, of "[''z'']"] a by simp
qed

text \<open>
  C2 as stated fails: with \<^verbatim>\<open>pass\<close> missing from the mail configuration the
  constructor returns an instance, the same one as with the field present.
\<close>

theorem construct_missing_pass_counterexample:
  "construct Local \<lparr> host = Some ''smtp.example.com'', port = Some 587,
                     user = Some ''test@example.com'', pass = None \<rparr> (Some sample_options)
     = Inr local_mailer"
  by (simp add: construct_def sample_options_def local_mailer_def default_company_def
        connects_db_def connects_sql_def)

text \<open>
  C2, amended. The constructor does not validate the mail configuration: for
  every configuration, with or without its four fields, it returns an instance
  with an empty waitlist, nothing emitted and nothing handed to the transport.
  A missing or empty \<^verbatim>\<open>user\<close> shows when a message is to be sent: \<open>sendMail\<close> reports
  \<^verbatim>\<open>Transporter not configured\<close> through \<open>onError\<close> and returns false without
  contacting the transport.
\<close>

theorem construct_never_throws:
  "construct st cfg options = Inr (projr (construct st cfg options))
   \<and> events (projr (construct st cfg options)) = []
   \<and> waitlist (projr (construct st cfg options)) = []
   \<and> outbox (projr (construct st cfg options)) = []
   \<and> auth_user (projr (construct st cfg options)) = user cfg
   \<and> (\<not> truthy (user cfg) \<longrightarrow>
        sendMail tr (projr (construct st cfg options)) email subject htmlContent
          = (False, emit (projr (construct st cfg options))
                      (OnError email ''sendMail'' ''Transporter not configured'')))"
  by (simp add: construct_def Let_def sendMail_def handleError_def)

theorem construct_never_throws_witness:
  "\<not> truthy (user \<lparr> host = Some ''smtp.example.com'', port = Some 587, user = None,
                     pass = None \<rparr>)
   \<and> fst (sendMail always_succeeds
         (projr (construct Local \<lparr> host = Some ''smtp.example.com'', port = Some 587,
                                   user = None, pass = None \<rparr> None))
         ''a@x.com'' ''Hi'' ''Welcome'') = False"
  using construct_never_throws [of Local "\<lparr> host = Some ''smtp.example.com'', port = Some 587,
                     user = None, pass = None \<rparr>" None always_succeeds "''a@x.com''" "''Hi''" "''Welcome''"]
  by simp

lemma emit_initialized: "emit (s\<lparr>initialized := b\<rparr>) e = (emit s e)\<lparr>initialized := b\<rparr>"
  by (simp add: emit_def)

lemma persist_initialized:
  "persist (s\<lparr>initialized := b\<rparr>) x y = (persist s x y)\<lparr>initialized := b\<rparr>"
  by (simp add: persist_def request_def)

lemma handleError_initialized:
  "handleError (s\<lparr>initialized := b\<rparr>) email action err
     = (handleError s email action err)\<lparr>initialized := b\<rparr>"
  by (simp add: handleError_def emit_initialized)

lemma addEmail_initialized:
  "addEmail j (s\<lparr>initialized := b\<rparr>) email
     = apsnd (\<lambda>s'. s'\<lparr>initialized := b\<rparr>) (addEmail j s email)"
  by (simp add: addEmail_def Let_def emailExists_def emit_def persist_def request_def)

lemma removeEmail_initialized:
  "removeEmail (s\<lparr>initialized := b\<rparr>) email
     = apsnd (\<lambda>s'. s'\<lparr>initialized := b\<rparr>) (removeEmail s email)"
  by (simp add: removeEmail_def emit_initialized persist_initialized emit_def persist_def request_def)

lemma clearWaitlist_initialized:
  "clearWaitlist (s\<lparr>initialized := b\<rparr>) = (clearWaitlist s)\<lparr>initialized := b\<rparr>"
  by (simp add: clearWaitlist_def emit_def persist_def request_def)

lemma findEmailsByPattern_initialized:
  "findEmailsByPattern be (s\<lparr>initialized := b\<rparr>) pat
     = apsnd (\<lambda>s'. s'\<lparr>initialized := b\<rparr>) (findEmailsByPattern be s pat)"
  by (simp add: findEmailsByPattern_def handleError_initialized split: sum.split)

lemma countWaitlistByDate_initialized:
  "countWaitlistByDate be (s\<lparr>initialized := b\<rparr>) startDate endDate
     = apsnd (\<lambda>s'. s'\<lparr>initialized := b\<rparr>) (countWaitlistByDate be s startDate endDate)"
  by (simp add: countWaitlistByDate_def handleError_initialized split: sum.split)

lemma sendMail_initialized:
  "sendMail tr (s\<lparr>initialized := b\<rparr>) email subject htmlContent
     = apsnd (\<lambda>s'. s'\<lparr>initialized := b\<rparr>) (sendMail tr s email subject htmlContent)"
  by (simp add: sendMail_def Let_def handleError_def emit_def split: sum.split)

lemma sendConfirmation_initialized:
  "sendConfirmation tr (s\<lparr>initialized := b\<rparr>) email st bt
     = apsnd (\<lambda>s'. s'\<lparr>initialized := b\<rparr>) (sendConfirmation tr s email st bt)"
  by (simp add: sendConfirmation_def Let_def sendMail_initialized)

lemma sendConfirmationFromFile_initialized:
  "sendConfirmationFromFile rf tr (s\<lparr>initialized := b\<rparr>) email st path repl
     = map_option (apsnd (\<lambda>s'. s'\<lparr>initialized := b\<rparr>))
         (sendConfirmationFromFile rf tr s email st path repl)"
  by (simp add: sendConfirmationFromFile_def sendMail_initialized handleError_initialized
        split: sum.split option.split)

lemma retry_loop_initialized:
  "retry_loop tr st bt email retries attempt (s\<lparr>initialized := b\<rparr>)
     = apsnd (\<lambda>s'. s'\<lparr>initialized := b\<rparr>) (retry_loop tr st bt email retries attempt s)"
proof (induction tr st bt email retries attempt s rule: retry_loop.induct)
  case (1 tr st bt email retries attempt s)
  show ?case
  proof (cases "attempt \<le> retries")
    case False
    then show ?thesis
      by (simp add: retry_loop.simps [of _ _ _ _ retries attempt])
  next
    case True
    show ?thesis
    proof (cases "fst (sendConfirmation tr s email st bt)")
      case True
      with \<open>attempt \<le> retries\<close> show ?thesis
        by (simp add: retry_loop.simps [of _ _ _ _ retries attempt] Let_def
              sendConfirmation_initialized)
    next
      case False
      with \<open>attempt \<le> retries\<close> "1.IH" [OF \<open>attempt \<le> retries\<close> refl False] show ?thesis
        by (simp add: retry_loop.simps [of _ _ _ _ retries attempt] Let_def
              sendConfirmation_initialized emit_initialized)
    qed
  qed
qed

lemma sendConfirmationWithRetry_initialized:
  "sendConfirmationWithRetry tr (s\<lparr>initialized := b\<rparr>) email st bt retries
     = apsnd (\<lambda>s'. s'\<lparr>initialized := b\<rparr>) (sendConfirmationWithRetry tr s email st bt retries)"
  by (simp add: sendConfirmationWithRetry_def retry_loop_initialized)

lemma bulk_loop_initialized:
  "bulk_loop tr st bt retries emails n (s\<lparr>initialized := b\<rparr>)
     = apsnd (\<lambda>s'. s'\<lparr>initialized := b\<rparr>) (bulk_loop tr st bt retries emails n s)"
proof (induction emails arbitrary: n s)
  case Nil
  show ?case by simp
next
  case (Cons email emails)
  show ?case
    by (simp add: Let_def sendConfirmationWithRetry_initialized Cons.IH)
qed

lemma sendBulkConfirmation_initialized:
  "sendBulkConfirmation tr (s\<lparr>initialized := b\<rparr>) st bt retries
     = apsnd (\<lambda>s'. s'\<lparr>initialized := b\<rparr>) (sendBulkConfirmation tr s st bt retries)"
  by (simp add: sendBulkConfirmation_def Let_def getWaitlist_def bulk_loop_initialized
        emit_initialized)

text \<open>
  C1 as stated fails: an instance on the document store is not initialized when
  the constructor returns, and \<open>addEmail\<close> on it validates, inserts, emits
  \<open>onEmailAdded\<close>, asks the store to create the record and returns true. No error is
  reported.
\<close>

theorem addEmail_before_ready_counterexample:
  "construct Db sample_config (Some db_options) = Inr db_mailer
   \<and> isInitialized db_mailer = False
   \<and> fst (addEmail joi_sample db_mailer ''test@example.com'') = True
   \<and> waitlist (snd (addEmail joi_sample db_mailer ''test@example.com'')) = [''test@example.com'']
   \<and> events (snd (addEmail joi_sample db_mailer ''test@example.com''))
       = [OnEmailAdded ''test@example.com'']
   \<and> requests (snd (addEmail joi_sample db_mailer ''test@example.com''))
       = [MongoCreate ''test@example.com'']"
proof -
  have "construct Db sample_config (Some db_options) = Inr db_mailer"
    by (simp add: construct_def sample_config_def db_options_def db_mailer_def
          default_company_def connects_db_def connects_sql_def)
  moreover have "isInitialized db_mailer = False"
    by (simp add: isInitialized_def db_mailer_def)
  moreover have "addEmail joi_sample db_mailer ''test@example.com''
      = (True, db_mailer\<lparr>waitlist := [''test@example.com''],
                          events := [OnEmailAdded ''test@example.com''],
                          requests := [MongoCreate ''test@example.com'']\<rparr>)"
    by code_simp
  ultimately show ?thesis by simp
qed

text \<open>
  C1, amended. No operation looks at the initialization flag: \<open>addEmail\<close>,
  \<open>removeEmail\<close>, \<open>clearWaitlist\<close>, \<open>findEmailsByPattern\<close>, \<open>countWaitlistByDate\<close> and
  the four send operations return the same result and make the same changes
  whatever the flag is, and leave the flag as it is. \<open>isInitialized\<close> reports the
  flag; waiting for it is left to the caller.
\<close>

theorem operations_ignore_initialized:
  "isInitialized (s\<lparr>initialized := b\<rparr>) = b
   \<and> addEmail j (s\<lparr>initialized := b\<rparr>) email
       = apsnd (\<lambda>s'. s'\<lparr>initialized := b\<rparr>) (addEmail j s email)
   \<and> removeEmail (s\<lparr>initialized := b\<rparr>) email
       = apsnd (\<lambda>s'. s'\<lparr>initialized := b\<rparr>) (removeEmail s email)
   \<and> clearWaitlist (s\<lparr>initialized := b\<rparr>) = (clearWaitlist s)\<lparr>initialized := b\<rparr>
   \<and> findEmailsByPattern be (s\<lparr>initialized := b\<rparr>) pat
       = apsnd (\<lambda>s'. s'\<lparr>initialized := b\<rparr>) (findEmailsByPattern be s pat)
   \<and> countWaitlistByDate be (s\<lparr>initialized := b\<rparr>) startDate endDate
       = apsnd (\<lambda>s'. s'\<lparr>initialized := b\<rparr>) (countWaitlistByDate be s startDate endDate)
   \<and> sendConfirmation tr (s\<lparr>initialized := b\<rparr>) email st bt
       = apsnd (\<lambda>s'. s'\<lparr>initialized := b\<rparr>) (sendConfirmation tr s email st bt)
   \<and> sendConfirmationFromFile rf tr (s\<lparr>initialized := b\<rparr>) email st path repl
       = map_option (apsnd (\<lambda>s'. s'\<lparr>initialized := b\<rparr>))
           (sendConfirmationFromFile rf tr s email st path repl)
   \<and> sendConfirmationWithRetry tr (s\<lparr>initialized := b\<rparr>) email st bt retries
       = apsnd (\<lambda>s'. s'\<lparr>initialized := b\<rparr>) (sendConfirmationWithRetry tr s email st bt retries)
   \<and> sendBulkConfirmation tr (s\<lparr>initialized := b\<rparr>) st bt retries
       = apsnd (\<lambda>s'. s'\<lparr>initialized := b\<rparr>) (sendBulkConfirmation tr s st bt retries)"
  by (simp add: isInitialized_def addEmail_initialized removeEmail_initialized
        clearWaitlist_initialized findEmailsByPattern_initialized countWaitlistByDate_initialized
        sendConfirmation_initialized sendConfirmationFromFile_initialized
        sendConfirmationWithRetry_initialized sendBulkConfirmation_initialized)

subsection \<open>The retry loop\<close>

text \<open>
  What holds of the loop for every input: it hands at most \<open>retries + 1\<close> messages
  to the transport, and when it gives up, the last event it emitted is
  \<open>onEmailRetry\<close> with attempt \<open>retries + 1\<close>, after the final attempt.
\<close>

lemma sendConfirmation_outbox:
  "length (outbox (snd (sendConfirmation tr s email st bt))) \<le> Suc (length (outbox s))"
  by (simp add: sendConfirmation_def sendMail_def Let_def handleError_def emit_def
        split: sum.split)

lemma retry_loop_attempts:
  "length (outbox (snd (retry_loop tr st bt email retries attempt s)))
     \<le> length (outbox s) + nat (retries + 1 - attempt)"
proof (induction tr st bt email retries attempt s rule: retry_loop.induct)
  case (1 tr st bt email retries attempt s)
  show ?case
  proof (cases "attempt \<le> retries")
    case False
    then show ?thesis
      by (simp add: retry_loop.simps [of _ _ _ _ retries attempt])
  next
    case le: True
    note one = sendConfirmation_outbox [of tr s email st bt]
    show ?thesis
    proof (cases "fst (sendConfirmation tr s email st bt)")
      case True
      with le one show ?thesis
        by (simp add: retry_loop.simps [of _ _ _ _ retries attempt] Let_def)
    next
      case False
      have "length (outbox (snd (retry_loop tr st bt email retries attempt s)))
              \<le> length (outbox (snd (sendConfirmation tr s email st bt)))
                  + nat (retries + 1 - (attempt + 1))"
        using le False "1.IH" [OF le refl False]
        by (simp add: retry_loop.simps [of _ _ _ _ retries attempt] Let_def emit_def)
      with le one show ?thesis
        by linarith
    qed
  qed
qed

lemma retry_event_follows_last_failure:
  assumes "attempt \<le> retries"
    and "\<not> fst (retry_loop tr st bt email retries attempt s)"
  shows "last (events (snd (retry_loop tr st bt email retries attempt s)))
           = OnEmailRetry email (retries + 1)"
  using assms
proof (induction tr st bt email retries attempt s rule: retry_loop.induct)
  case (1 tr st bt email retries attempt s)
  note le = "1.prems"(1)
  have failed: "\<not> fst (sendConfirmation tr s email st bt)"
    using "1.prems" by (auto simp: retry_loop.simps [of _ _ _ _ retries attempt] Let_def)
  let ?s1 = "emit (snd (sendConfirmation tr s email st bt)) (OnEmailRetry email (attempt + 1))"
  have step: "retry_loop tr st bt email retries attempt s
                = retry_loop tr st bt email retries (attempt + 1) ?s1"
    using le failed by (simp add: retry_loop.simps [of _ _ _ _ retries attempt] Let_def)
  show ?case
  proof (cases "attempt + 1 \<le> retries")
    case True
    then show ?thesis
      using "1.IH" [OF le refl failed True] "1.prems"(2) by (simp add: step)
  next
    case False
    have "retry_loop tr st bt email retries (attempt + 1) ?s1 = (False, ?s1)"
      using False by (simp add: retry_loop.simps [of _ _ _ _ retries "attempt + 1"])
    then have "last (events (snd (retry_loop tr st bt email retries attempt s)))
                 = OnEmailRetry email (attempt + 1)"
      unfolding step by (simp add: emit_def)
    moreover from le False have "attempt = retries" by simp
    ultimately show ?thesis
      by simp
  qed
qed

text \<open>
  One retry allowed, and a transport that fails the first message and delivers
  the second: the call returns true, two messages reach the transport and one
  \<open>onEmailRetry\<close> is emitted, with attempt 1.
\<close>

lemma retry_once_then_success:
  "fst (sendConfirmationWithRetry fails_once (mailer_with [''retry@test.com''])
          ''retry@test.com'' (\<lambda>e. ''Retry '' @ e) (\<lambda>e. ''<p>Retry '' @ e @ ''</p>'') 1) = True
   \<and> events (snd (sendConfirmationWithRetry fails_once (mailer_with [''retry@test.com''])
          ''retry@test.com'' (\<lambda>e. ''Retry '' @ e) (\<lambda>e. ''<p>Retry '' @ e @ ''</p>'') 1))
       = [OnError ''retry@test.com'' ''sendMail'' ''Failed'', OnEmailRetry ''retry@test.com'' 1,
          OnEmailSent ''retry@test.com'' ''mock-id'']
   \<and> length (outbox (snd (sendConfirmationWithRetry fails_once (mailer_with [''retry@test.com''])
          ''retry@test.com'' (\<lambda>e. ''Retry '' @ e) (\<lambda>e. ''<p>Retry '' @ e @ ''</p>'') 1))) = 2"
  by code_simp

text \<open>
  C3 on the code, where every attempt fails. With one retry allowed the transport
  is given two messages and \<open>onEmailRetry\<close> is emitted twice: once between the two
  attempts, with attempt 1, and once more after the last attempt, with attempt
  2, when nothing is retried any more. With no retry allowed the single attempt
  is still followed by \<open>onEmailRetry\<close> with attempt 1.
\<close>

theorem retry_event_after_final_attempt:
  "fst (sendConfirmationWithRetry always_fails (mailer_with [''retry@test.com''])
          ''retry@test.com'' (\<lambda>e. ''Retry '' @ e) (\<lambda>e. ''<p>Retry '' @ e @ ''</p>'') 1) = False
   \<and> events (snd (sendConfirmationWithRetry always_fails (mailer_with [''retry@test.com''])
          ''retry@test.com'' (\<lambda>e. ''Retry '' @ e) (\<lambda>e. ''<p>Retry '' @ e @ ''</p>'') 1))
       = [OnError ''retry@test.com'' ''sendMail'' ''Failed'', OnEmailRetry ''retry@test.com'' 1,
          OnError ''retry@test.com'' ''sendMail'' ''Failed'', OnEmailRetry ''retry@test.com'' 2]
   \<and> length (outbox (snd (sendConfirmationWithRetry always_fails (mailer_with [''retry@test.com''])
          ''retry@test.com'' (\<lambda>e. ''Retry '' @ e) (\<lambda>e. ''<p>Retry '' @ e @ ''</p>'') 1))) = 2
   \<and> events (snd (sendConfirmationWithRetry always_fails (mailer_with [''retry@test.com''])
          ''retry@test.com'' (\<lambda>e. ''Retry '' @ e) (\<lambda>e. ''<p>Retry '' @ e @ ''</p>'') 0))
       = [OnError ''retry@test.com'' ''sendMail'' ''Failed'', OnEmailRetry ''retry@test.com'' 1]
   \<and> length (outbox (snd (sendConfirmationWithRetry always_fails (mailer_with [''retry@test.com''])
          ''retry@test.com'' (\<lambda>e. ''Retry '' @ e) (\<lambda>e. ''<p>Retry '' @ e @ ''</p>'') 0))) = 1"
  by code_simp

lemma sendMail_frame:
  "waitlist (snd (sendMail tr s email subject html)) = waitlist s
   \<and> auth_user (snd (sendMail tr s email subject html)) = auth_user s"
  by (simp add: sendMail_def Let_def handleError_def emit_def split: sum.split)

lemma sendMail_events:
  "\<exists>e. events (snd (sendMail tr s email subject html)) = events s @ [e]
       \<and> \<not> is_bulk_complete e \<and> is_sent e = fst (sendMail tr s email subject html)"
  by (simp add: sendMail_def Let_def handleError_def emit_def split: sum.split)

lemma sendConfirmation_frame:
  "waitlist (snd (sendConfirmation tr s email st bt)) = waitlist s
   \<and> auth_user (snd (sendConfirmation tr s email st bt)) = auth_user s"
  by (simp add: sendConfirmation_def Let_def sendMail_frame)

lemma sendConfirmation_events:
  "\<exists>evs. events (snd (sendConfirmation tr s email st bt)) = events s @ evs
       \<and> \<not> list_ex is_bulk_complete evs
       \<and> length (filter is_sent evs) = (if fst (sendConfirmation tr s email st bt) then 1 else 0)"
proof (cases "set_has (waitlist s) email")
  case False
  then show ?thesis by (simp add: sendConfirmation_def)
next
  case True
  obtain e where e: "events (snd (sendConfirmation tr s email st bt)) = events s @ [e]"
      "\<not> is_bulk_complete e" "is_sent e = fst (sendConfirmation tr s email st bt)"
    using True sendMail_events [of tr s email "st email"]
    by (auto simp: sendConfirmation_def Let_def)
  show ?thesis
    by (rule exI [of _ "[e]"]) (use e in simp)
qed

lemma retry_loop_frame:
  "waitlist (snd (retry_loop tr st bt email retries attempt s)) = waitlist s
   \<and> auth_user (snd (retry_loop tr st bt email retries attempt s)) = auth_user s"
proof (induction tr st bt email retries attempt s rule: retry_loop.induct)
  case (1 tr st bt email retries attempt s)
  show ?case
  proof (cases "attempt \<le> retries")
    case False
    then show ?thesis
      by (simp add: retry_loop.simps [of _ _ _ _ retries attempt])
  next
    case le: True
    show ?thesis
    proof (cases "fst (sendConfirmation tr s email st bt)")
      case True
      with le show ?thesis
        by (simp add: retry_loop.simps [of _ _ _ _ retries attempt] Let_def sendConfirmation_frame)
    next
      case False
      with le "1.IH" [OF le refl False] show ?thesis
        by (simp add: retry_loop.simps [of _ _ _ _ retries attempt] Let_def
              sendConfirmation_frame emit_def)
    qed
  qed
qed

lemma retry_loop_events:
  "\<exists>evs. events (snd (retry_loop tr st bt email retries attempt s)) = events s @ evs
       \<and> \<not> list_ex is_bulk_complete evs
       \<and> length (filter is_sent evs)
           = (if fst (retry_loop tr st bt email retries attempt s) then 1 else 0)"
proof (induction tr st bt email retries attempt s rule: retry_loop.induct)
  case (1 tr st bt email retries attempt s)
  show ?case
  proof (cases "attempt \<le> retries")
    case False
    then show ?thesis
      by (simp add: retry_loop.simps [of _ _ _ _ retries attempt])
  next
    case le: True
    obtain evs1 where evs1:
      "events (snd (sendConfirmation tr s email st bt)) = events s @ evs1"
      "\<not> list_ex is_bulk_complete evs1"
      "length (filter is_sent evs1) = (if fst (sendConfirmation tr s email st bt) then 1 else 0)"
      using sendConfirmation_events [of tr s email st bt] by blast
    show ?thesis
    proof (cases "fst (sendConfirmation tr s email st bt)")
      case True
      have "retry_loop tr st bt email retries attempt s
              = (True, snd (sendConfirmation tr s email st bt))"
        using le True by (simp add: retry_loop.simps [of _ _ _ _ retries attempt] Let_def)
      then show ?thesis
        using evs1 True by auto
    next
      case False
      let ?s1 = "emit (snd (sendConfirmation tr s email st bt)) (OnEmailRetry email (attempt + 1))"
      have step: "retry_loop tr st bt email retries attempt s
              = retry_loop tr st bt email retries (attempt + 1) ?s1"
        using le False by (simp add: retry_loop.simps [of _ _ _ _ retries attempt] Let_def)
      obtain evs2 where evs2:
        "events (snd (retry_loop tr st bt email retries (attempt + 1) ?s1)) = events ?s1 @ evs2"
        "\<not> list_ex is_bulk_complete evs2"
        "length (filter is_sent evs2)
           = (if fst (retry_loop tr st bt email retries (attempt + 1) ?s1) then 1 else 0)"
        using "1.IH" [OF le refl False] by blast
      have "events ?s1 = events s @ evs1 @ [OnEmailRetry email (attempt + 1)]"
        using evs1(1) by (simp add: emit_def)
      then have "events (snd (retry_loop tr st bt email retries attempt s))
                   = events s @ (evs1 @ [OnEmailRetry email (attempt + 1)] @ evs2)"
        using step evs2(1) by simp
      moreover have "\<not> list_ex is_bulk_complete (evs1 @ [OnEmailRetry email (attempt + 1)] @ evs2)"
        using evs1(2) evs2(2) by simp
      moreover have "length (filter is_sent (evs1 @ [OnEmailRetry email (attempt + 1)] @ evs2))
                   = (if fst (retry_loop tr st bt email retries attempt s) then 1 else 0)"
        using evs1(3) evs2(3) False step by simp
      ultimately show ?thesis by blast
    qed
  qed
qed

lemma bulk_loop_frame:
  "waitlist (snd (bulk_loop tr st bt retries emails n s)) = waitlist s
   \<and> auth_user (snd (bulk_loop tr st bt retries emails n s)) = auth_user s"
proof (induction emails arbitrary: n s)
  case Nil
  show ?case by simp
next
  case (Cons email emails)
  show ?case
    by (simp add: Let_def Cons.IH sendConfirmationWithRetry_def retry_loop_frame)
qed

lemma bulk_loop_events:
  "\<exists>evs. events (snd (bulk_loop tr st bt retries emails n s)) = events s @ evs
       \<and> \<not> list_ex is_bulk_complete evs
       \<and> fst (bulk_loop tr st bt retries emails n s) = n + length (filter is_sent evs)
       \<and> fst (bulk_loop tr st bt retries emails n s) \<le> n + length emails"
proof (induction emails arbitrary: n s)
  case Nil
  show ?case by simp
next
  case (Cons email emails)
  let ?r = "sendConfirmationWithRetry tr s email st bt retries"
  let ?n = "if fst ?r then n + 1 else n"
  obtain evs1 where evs1: "events (snd ?r) = events s @ evs1"
      "\<not> list_ex is_bulk_complete evs1"
      "length (filter is_sent evs1) = (if fst ?r then 1 else 0)"
    using retry_loop_events [of tr st bt email retries 0 s]
    unfolding sendConfirmationWithRetry_def by blast
  obtain evs2 where evs2:
      "events (snd (bulk_loop tr st bt retries emails ?n (snd ?r))) = events (snd ?r) @ evs2"
      "\<not> list_ex is_bulk_complete evs2"
      "fst (bulk_loop tr st bt retries emails ?n (snd ?r)) = ?n + length (filter is_sent evs2)"
      "fst (bulk_loop tr st bt retries emails ?n (snd ?r)) \<le> ?n + length emails"
    using Cons.IH [of ?n "snd ?r"] by blast
  have step: "bulk_loop tr st bt retries (email # emails) n s
                = bulk_loop tr st bt retries emails ?n (snd ?r)"
    by (simp add: Let_def)
  have "events (snd (bulk_loop tr st bt retries (email # emails) n s))
          = events s @ (evs1 @ evs2)"
    unfolding step using evs1(1) evs2(1) by simp
  moreover have "\<not> list_ex is_bulk_complete (evs1 @ evs2)"
    using evs1(2) evs2(2) by simp
  moreover have "fst (bulk_loop tr st bt retries (email # emails) n s)
          = n + length (filter is_sent (evs1 @ evs2))"
    unfolding step using evs1(3) evs2(3) by (simp split: if_splits)
  moreover have "fst (bulk_loop tr st bt retries (email # emails) n s)
          \<le> n + length (email # emails)"
    unfolding step using evs2(4) by (simp split: if_splits)
  ultimately show ?case by blast
qed


lemma sendConfirmation_succeeds:
  assumes "\<forall>h m. \<not> isl (tr h m)" and "truthy (auth_user s)" and "set_has (waitlist s) email"
  shows "fst (sendConfirmation tr s email st bt)"
proof -
  have no_inl: "tr h m \<noteq> Inl x" for h m x
  proof
    assume "tr h m = Inl x"
    then have "isl (tr h m)" by simp
    with assms(1) show False by blast
  qed
  show ?thesis
    using assms(2,3)
    by (simp add: sendConfirmation_def sendMail_def Let_def no_inl split: sum.split)
qed

lemma retry_loop_succeeds:
  assumes "\<forall>h m. \<not> isl (tr h m)" and "truthy (auth_user s)" and "set_has (waitlist s) email"
    and "attempt \<le> retries"
  shows "fst (retry_loop tr st bt email retries attempt s)"
  using assms sendConfirmation_succeeds [OF assms(1-3), of st bt]
  by (simp add: retry_loop.simps [of _ _ _ _ retries attempt] Let_def)

lemma bulk_loop_succeeds:
  assumes "\<forall>h m. \<not> isl (tr h m)" and "0 \<le> retries"
  shows "truthy (auth_user s) \<Longrightarrow> set emails \<subseteq> set (waitlist s)
           \<Longrightarrow> fst (bulk_loop tr st bt retries emails n s) = n + length emails"
proof (induction emails arbitrary: n s)
  case Nil
  show ?case by simp
next
  case (Cons email emails)
  let ?r = "sendConfirmationWithRetry tr s email st bt retries"
  have ok: "fst ?r"
    unfolding sendConfirmationWithRetry_def
    using Cons.prems assms by (intro retry_loop_succeeds) (simp_all add: set_has_def)
  have frame: "waitlist (snd ?r) = waitlist s" "auth_user (snd ?r) = auth_user s"
    unfolding sendConfirmationWithRetry_def using retry_loop_frame by blast+
  have "fst (bulk_loop tr st bt retries emails (n + 1) (snd ?r)) = (n + 1) + length emails"
    using Cons.prems frame by (intro Cons.IH) simp_all
  then show ?case
    using ok by (simp add: Let_def)
qed

subsection \<open>What the bulk send hands to the transport\<close>

lemma delivered_append:
  "delivered tr h (a @ b) = delivered tr h a + delivered tr (h @ a) b"
  by (induction a arbitrary: h) simp_all

lemma filter_recipient:
  "\<forall>m\<in>set ms. mail_to m = email \<Longrightarrow>
     length (filter (\<lambda>m. mail_to m = e) ms) = (if e = email then length ms else 0)"
  by (induction ms) auto

lemma sendMail_handed:
  "\<exists>ms. outbox (snd (sendMail tr s email subject html)) = outbox s @ ms
        \<and> (\<forall>m\<in>set ms. mail_to m = email)
        \<and> length ms = (if truthy (auth_user s) then 1 else 0)
        \<and> delivered tr (outbox s) ms = (if fst (sendMail tr s email subject html) then 1 else 0)"
proof (cases "truthy (auth_user s)")
  case False
  then have "outbox (snd (sendMail tr s email subject html)) = outbox s @ []"
      "\<not> fst (sendMail tr s email subject html)"
    by (simp_all add: sendMail_def handleError_def emit_def)
  with False show ?thesis
    by (intro exI [of _ "[]"]) simp
next
  case True
  let ?m = "\<lparr> mail_from = [CHR 0x22] @ companyName s @ [CHR 0x22] @ '' <''
                          @ the (auth_user s) @ ''>'',
               mail_to = email, mail_subject = subject, mail_html = html \<rparr>"
  have "outbox (snd (sendMail tr s email subject html)) = outbox s @ [?m]"
    using True by (simp add: sendMail_def Let_def handleError_def emit_def split: sum.split)
  moreover have "delivered tr (outbox s) [?m] = (if fst (sendMail tr s email subject html) then 1 else 0)"
    using True by (simp add: sendMail_def Let_def split: sum.split)
  ultimately show ?thesis
    using True by (intro exI [of _ "[?m]"]) simp
qed

lemma sendConfirmation_handed:
  "\<exists>ms. outbox (snd (sendConfirmation tr s email st bt)) = outbox s @ ms
        \<and> (\<forall>m\<in>set ms. mail_to m = email)
        \<and> length ms = (if set_has (waitlist s) email \<and> truthy (auth_user s) then 1 else 0)
        \<and> delivered tr (outbox s) ms = (if fst (sendConfirmation tr s email st bt) then 1 else 0)"
proof (cases "set_has (waitlist s) email")
  case False
  then show ?thesis
    by (intro exI [of _ "[]"]) (simp add: sendConfirmation_def)
next
  case True
  then show ?thesis
    using sendMail_handed [of tr s email "st email"]
    by (simp add: sendConfirmation_def Let_def)
qed

lemma retry_loop_handed:
  "\<exists>ms. outbox (snd (retry_loop tr st bt email retries attempt s)) = outbox s @ ms
        \<and> (\<forall>m\<in>set ms. mail_to m = email)
        \<and> length ms \<le> nat (retries + 1 - attempt)
        \<and> (attempt \<le> retries \<and> set_has (waitlist s) email \<and> truthy (auth_user s)
             \<longrightarrow> 1 \<le> length ms)
        \<and> delivered tr (outbox s) ms
             = (if fst (retry_loop tr st bt email retries attempt s) then 1 else 0)"
proof (induction tr st bt email retries attempt s rule: retry_loop.induct)
  case (1 tr st bt email retries attempt s)
  show ?case
  proof (cases "attempt \<le> retries")
    case False
    then have "retry_loop tr st bt email retries attempt s = (False, s)"
      by (simp add: retry_loop.simps [of _ _ _ _ retries attempt])
    with False show ?thesis
      by (intro exI [of _ "[]"]) simp
  next
    case le: True
    let ?r = "sendConfirmation tr s email st bt"
    obtain ms1 where ms1: "outbox (snd ?r) = outbox s @ ms1" "\<forall>m\<in>set ms1. mail_to m = email"
        "length ms1 = (if set_has (waitlist s) email \<and> truthy (auth_user s) then 1 else 0)"
        "delivered tr (outbox s) ms1 = (if fst ?r then 1 else 0)"
      using sendConfirmation_handed [of tr s email st bt] by blast
    show ?thesis
    proof (cases "fst ?r")
      case True
      have "retry_loop tr st bt email retries attempt s = (True, snd ?r)"
        using le True by (simp add: retry_loop.simps [of _ _ _ _ retries attempt] Let_def)
      with ms1 True le show ?thesis
        by (intro exI [of _ ms1]) (simp split: if_splits)
    next
      case False
      let ?s1 = "emit (snd ?r) (OnEmailRetry email (attempt + 1))"
      have step: "retry_loop tr st bt email retries attempt s
                    = retry_loop tr st bt email retries (attempt + 1) ?s1"
        using le False by (simp add: retry_loop.simps [of _ _ _ _ retries attempt] Let_def)
      have ob1: "outbox ?s1 = outbox s @ ms1"
        using ms1(1) by (simp add: emit_def)
      obtain ms2 where ms2:
          "outbox (snd (retry_loop tr st bt email retries (attempt + 1) ?s1)) = outbox ?s1 @ ms2"
          "\<forall>m\<in>set ms2. mail_to m = email"
          "length ms2 \<le> nat (retries + 1 - (attempt + 1))"
          "delivered tr (outbox ?s1) ms2
             = (if fst (retry_loop tr st bt email retries (attempt + 1) ?s1) then 1 else 0)"
        using "1.IH" [OF le refl False] by blast
      have a: "outbox (snd (retry_loop tr st bt email retries attempt s)) = outbox s @ (ms1 @ ms2)"
        unfolding step using ms2(1) ob1 by simp
      have b: "\<forall>m\<in>set (ms1 @ ms2). mail_to m = email"
        using ms1(2) ms2(2) by auto
      have "length ms1 \<le> 1"
        using ms1(3) by (simp split: if_splits)
      then have c: "length (ms1 @ ms2) \<le> nat (retries + 1 - attempt)"
        using ms2(3) le by simp
      have d: "attempt \<le> retries \<and> set_has (waitlist s) email \<and> truthy (auth_user s)
                 \<longrightarrow> 1 \<le> length (ms1 @ ms2)"
        using ms1(3) by simp
      have e: "delivered tr (outbox s) (ms1 @ ms2)
                 = (if fst (retry_loop tr st bt email retries attempt s) then 1 else 0)"
        unfolding step using ms1(4) ms2(4) False ob1 by (simp add: delivered_append)
      from a b c d e show ?thesis
        by blast
    qed
  qed
qed

lemma bulk_loop_handed:
  "\<exists>ms. outbox (snd (bulk_loop tr st bt retries emails n s)) = outbox s @ ms
        \<and> fst (bulk_loop tr st bt retries emails n s) = n + delivered tr (outbox s) ms
        \<and> (\<forall>e. length (filter (\<lambda>m. mail_to m = e) ms) \<le> count_list emails e * nat (retries + 1))
        \<and> (0 \<le> retries \<and> truthy (auth_user s) \<and> set emails \<subseteq> set (waitlist s)
             \<longrightarrow> (\<forall>e. count_list emails e \<le> length (filter (\<lambda>m. mail_to m = e) ms)))"
proof (induction emails arbitrary: n s)
  case Nil
  show ?case
    by (intro exI [of _ "[]"]) simp
next
  case (Cons email emails)
  let ?r = "sendConfirmationWithRetry tr s email st bt retries"
  let ?n = "if fst ?r then n + 1 else n"
  obtain ms1 where ms1: "outbox (snd ?r) = outbox s @ ms1" "\<forall>m\<in>set ms1. mail_to m = email"
      "length ms1 \<le> nat (retries + 1)"
      "0 \<le> retries \<and> set_has (waitlist s) email \<and> truthy (auth_user s) \<longrightarrow> 1 \<le> length ms1"
      "delivered tr (outbox s) ms1 = (if fst ?r then 1 else 0)"
    using retry_loop_handed [of tr st bt email retries 0 s]
    unfolding sendConfirmationWithRetry_def by auto
  have frame: "waitlist (snd ?r) = waitlist s" "auth_user (snd ?r) = auth_user s"
    unfolding sendConfirmationWithRetry_def using retry_loop_frame by blast+
  obtain ms2 where ms2:
      "outbox (snd (bulk_loop tr st bt retries emails ?n (snd ?r))) = outbox (snd ?r) @ ms2"
      "fst (bulk_loop tr st bt retries emails ?n (snd ?r)) = ?n + delivered tr (outbox (snd ?r)) ms2"
      "\<forall>e. length (filter (\<lambda>m. mail_to m = e) ms2) \<le> count_list emails e * nat (retries + 1)"
      "0 \<le> retries \<and> truthy (auth_user (snd ?r)) \<and> set emails \<subseteq> set (waitlist (snd ?r))
             \<longrightarrow> (\<forall>e. count_list emails e \<le> length (filter (\<lambda>m. mail_to m = e) ms2))"
    using Cons.IH [of ?n "snd ?r"] by blast
  have step: "bulk_loop tr st bt retries (email # emails) n s
                = bulk_loop tr st bt retries emails ?n (snd ?r)"
    by (simp add: Let_def)
  have to1: "length (filter (\<lambda>m. mail_to m = e) ms1) = (if e = email then length ms1 else 0)" for e
    using ms1(2) by (rule filter_recipient)
  have a: "outbox (snd (bulk_loop tr st bt retries (email # emails) n s)) = outbox s @ (ms1 @ ms2)"
    unfolding step using ms1(1) ms2(1) by simp
  have b: "fst (bulk_loop tr st bt retries (email # emails) n s)
             = n + delivered tr (outbox s) (ms1 @ ms2)"
    unfolding step using ms1(1,5) ms2(2) by (simp add: delivered_append)
  have c: "\<forall>e. length (filter (\<lambda>m. mail_to m = e) (ms1 @ ms2))
             \<le> count_list (email # emails) e * nat (retries + 1)"
  proof
    fix e
    have "length (filter (\<lambda>m. mail_to m = e) ms2) \<le> count_list emails e * nat (retries + 1)"
      using ms2(3) by blast
    then show "length (filter (\<lambda>m. mail_to m = e) (ms1 @ ms2))
             \<le> count_list (email # emails) e * nat (retries + 1)"
      using ms1(3) by (simp add: to1)
  qed
  have d: "0 \<le> retries \<and> truthy (auth_user s) \<and> set (email # emails) \<subseteq> set (waitlist s)
             \<longrightarrow> (\<forall>e. count_list (email # emails) e
                       \<le> length (filter (\<lambda>m. mail_to m = e) (ms1 @ ms2)))"
  proof (intro impI allI)
    fix e
    assume h: "0 \<le> retries \<and> truthy (auth_user s) \<and> set (email # emails) \<subseteq> set (waitlist s)"
    then have "1 \<le> length ms1"
      using ms1(4) by (simp add: set_has_def)
    moreover have "count_list emails e \<le> length (filter (\<lambda>m. mail_to m = e) ms2)"
      using h ms2(4) frame by simp
    ultimately show "count_list (email # emails) e
                       \<le> length (filter (\<lambda>m. mail_to m = e) (ms1 @ ms2))"
      by (simp add: to1)
  qed
  from a b c d show ?case
    by blast
qed

lemma bulk_loop_send_each:
  "bulk_loop tr st bt retries emails n s
     = (n + length (filter id (fst (send_each tr st bt retries emails s))),
        snd (send_each tr st bt retries emails s))"
proof (induction emails arbitrary: n s)
  case Nil
  show ?case by simp
next
  case (Cons email emails)
  show ?case
    by (simp add: Let_def Cons.IH)
qed

lemma length_send_each: "length (fst (send_each tr st bt retries emails s)) = length emails"
  by (induction emails arbitrary: s) (simp_all add: Let_def)

text \<open>
  C5. \<open>sendBulkConfirmation\<close> goes through the addresses of the waitlist in order,
  one \<open>sendConfirmationWithRetry\<close> after the other: its result is the number of
  calls that returned true, one call per address, and the instance it leaves is
  the one the last call left, with \<open>onBulkConfirmationComplete\<close> emitted on it. The
  events it adds end with \<open>onBulkConfirmationComplete\<close>, which occurs once among
  them and carries the returned count and the size of the waitlist. The returned
  count is the number of \<open>onEmailSent\<close> among the added events and the number of
  messages, among those the call handed to the transport, that the transport
  accepted; it is at most the size of the waitlist, which the call leaves
  unchanged. An address receives at most \<open>retries + 1\<close> messages for each of its
  occurrences in the waitlist, so none if it is not there, and at least one when
  an attempt is allowed and the sender is configured. With at least one attempt
  allowed, a configured sender and a transport that never rejects, the count is
  the size of the waitlist.
\<close>

theorem sendBulkConfirmation_counts:
  "events (snd (sendBulkConfirmation tr s st bt retries))
     = events s @ emitted s (snd (sendBulkConfirmation tr s st bt retries))
   \<and> last (emitted s (snd (sendBulkConfirmation tr s st bt retries)))
       = OnBulkConfirmationComplete (fst (sendBulkConfirmation tr s st bt retries))
           (set_size (waitlist s))
   \<and> length (filter is_bulk_complete (emitted s (snd (sendBulkConfirmation tr s st bt retries)))) = 1
   \<and> fst (sendBulkConfirmation tr s st bt retries)
       = length (filter is_sent (emitted s (snd (sendBulkConfirmation tr s st bt retries))))
   \<and> fst (sendBulkConfirmation tr s st bt retries) \<le> set_size (waitlist s)
   \<and> waitlist (snd (sendBulkConfirmation tr s st bt retries)) = waitlist s
   \<and> (0 \<le> retries \<and> truthy (auth_user s) \<and> (\<forall>h m. \<not> isl (tr h m))
        \<longrightarrow> fst (sendBulkConfirmation tr s st bt retries) = set_size (waitlist s))
   \<and> sendBulkConfirmation tr s st bt retries
       = (length (filter id (fst (send_each tr st bt retries (waitlist s) s))),
          emit (snd (send_each tr st bt retries (waitlist s) s))
            (OnBulkConfirmationComplete
               (length (filter id (fst (send_each tr st bt retries (waitlist s) s))))
               (set_size (waitlist s))))
   \<and> length (fst (send_each tr st bt retries (waitlist s) s)) = set_size (waitlist s)
   \<and> outbox (snd (sendBulkConfirmation tr s st bt retries))
       = outbox s @ handed_over s (snd (sendBulkConfirmation tr s st bt retries))
   \<and> fst (sendBulkConfirmation tr s st bt retries)
       = delivered tr (outbox s) (handed_over s (snd (sendBulkConfirmation tr s st bt retries)))
   \<and> length (filter (\<lambda>m. mail_to m = e)
         (handed_over s (snd (sendBulkConfirmation tr s st bt retries))))
       \<le> count_list (waitlist s) e * nat (retries + 1)
   \<and> (0 \<le> retries \<and> truthy (auth_user s)
        \<longrightarrow> count_list (waitlist s) e
              \<le> length (filter (\<lambda>m. mail_to m = e)
                    (handed_over s (snd (sendBulkConfirmation tr s st bt retries)))))"
proof -
  let ?l = "bulk_loop tr st bt retries (waitlist s) 0 s"
  let ?done = "OnBulkConfirmationComplete (fst ?l) (length (waitlist s))"
  have r: "sendBulkConfirmation tr s st bt retries = (fst ?l, emit (snd ?l) ?done)"
    by (simp add: sendBulkConfirmation_def Let_def getWaitlist_def)
  obtain evs where evs: "events (snd ?l) = events s @ evs" "\<not> list_ex is_bulk_complete evs"
      "fst ?l = 0 + length (filter is_sent evs)" "fst ?l \<le> 0 + length (waitlist s)"
    using bulk_loop_events [of tr st bt retries "waitlist s" 0 s] by blast
  have ev: "events (emit (snd ?l) ?done) = events s @ evs @ [?done]"
    using evs(1) by (simp add: emit_def)
  then have em: "emitted s (emit (snd ?l) ?done) = evs @ [?done]"
    by (simp add: emitted_def)
  have nobulk: "filter is_bulk_complete evs = []"
    using evs(2) by (simp add: list_ex_iff filter_empty_conv)
  obtain ms where ms: "outbox (snd ?l) = outbox s @ ms"
      "fst ?l = 0 + delivered tr (outbox s) ms"
      "\<forall>e. length (filter (\<lambda>m. mail_to m = e) ms) \<le> count_list (waitlist s) e * nat (retries + 1)"
      "0 \<le> retries \<and> truthy (auth_user s) \<and> set (waitlist s) \<subseteq> set (waitlist s)
         \<longrightarrow> (\<forall>e. count_list (waitlist s) e \<le> length (filter (\<lambda>m. mail_to m = e) ms))"
    using bulk_loop_handed [of tr st bt retries "waitlist s" 0 s] by blast
  have ho: "handed_over s (emit (snd ?l) ?done) = ms"
    using ms(1) by (simp add: handed_over_def emit_def)
  have 1: "events (snd (sendBulkConfirmation tr s st bt retries))
     = events s @ emitted s (snd (sendBulkConfirmation tr s st bt retries))"
    unfolding r using ev em by simp
  have 2: "last (emitted s (snd (sendBulkConfirmation tr s st bt retries)))
       = OnBulkConfirmationComplete (fst (sendBulkConfirmation tr s st bt retries))
           (set_size (waitlist s))"
    unfolding r using em by (simp add: set_size_def)
  have 3: "length (filter is_bulk_complete
             (emitted s (snd (sendBulkConfirmation tr s st bt retries)))) = 1"
    unfolding r using em nobulk by simp
  have 4: "fst (sendBulkConfirmation tr s st bt retries)
       = length (filter is_sent (emitted s (snd (sendBulkConfirmation tr s st bt retries))))"
    unfolding r using em evs(3) by simp
  have 5: "fst (sendBulkConfirmation tr s st bt retries) \<le> set_size (waitlist s)"
    unfolding r using evs(4) by (simp add: set_size_def)
  have 6: "waitlist (snd (sendBulkConfirmation tr s st bt retries)) = waitlist s"
    unfolding r using bulk_loop_frame [of tr st bt retries "waitlist s" 0 s] by (simp add: emit_def)
  have 7: "0 \<le> retries \<and> truthy (auth_user s) \<and> (\<forall>h m. \<not> isl (tr h m))
        \<longrightarrow> fst (sendBulkConfirmation tr s st bt retries) = set_size (waitlist s)"
    unfolding r using bulk_loop_succeeds [of tr retries s "waitlist s" st bt 0]
    by (simp add: set_size_def)
  have 8: "sendBulkConfirmation tr s st bt retries
       = (length (filter id (fst (send_each tr st bt retries (waitlist s) s))),
          emit (snd (send_each tr st bt retries (waitlist s) s))
            (OnBulkConfirmationComplete
               (length (filter id (fst (send_each tr st bt retries (waitlist s) s))))
               (set_size (waitlist s))))"
    unfolding r by (simp add: bulk_loop_send_each set_size_def)
  have 9: "length (fst (send_each tr st bt retries (waitlist s) s)) = set_size (waitlist s)"
    by (simp add: length_send_each set_size_def)
  have 10: "outbox (snd (sendBulkConfirmation tr s st bt retries))
       = outbox s @ handed_over s (snd (sendBulkConfirmation tr s st bt retries))"
    unfolding r using ho ms(1) by (simp add: emit_def)
  have 11: "fst (sendBulkConfirmation tr s st bt retries)
       = delivered tr (outbox s) (handed_over s (snd (sendBulkConfirmation tr s st bt retries)))"
    unfolding r using ho ms(2) by simp
  have 12: "length (filter (\<lambda>m. mail_to m = e)
         (handed_over s (snd (sendBulkConfirmation tr s st bt retries))))
       \<le> count_list (waitlist s) e * nat (retries + 1)"
    unfolding r using ho ms(3) by simp
  have 13: "0 \<le> retries \<and> truthy (auth_user s)
        \<longrightarrow> count_list (waitlist s) e
              \<le> length (filter (\<lambda>m. mail_to m = e)
                    (handed_over s (snd (sendBulkConfirmation tr s st bt retries))))"
    unfolding r using ho ms(4) by simp
  from 1 2 3 4 5 6 7 8 9 10 11 12 13 show ?thesis
    by blast
qed

theorem sendBulkConfirmation_counts_witness:
  "0 \<le> (2::int) \<and> truthy (auth_user (mailer_with [''a@x.com'', ''b@x.com'']))
   \<and> (\<forall>h m. \<not> isl (always_succeeds h m))
   \<and> fst (sendBulkConfirmation always_succeeds (mailer_with [''a@x.com'', ''b@x.com''])
            (\<lambda>e. ''Bulk '' @ e) (\<lambda>e. ''<p>Bulk '' @ e @ ''</p>'') 2) = 2
   \<and> events (snd (sendBulkConfirmation always_succeeds (mailer_with [''a@x.com'', ''b@x.com''])
            (\<lambda>e. ''Bulk '' @ e) (\<lambda>e. ''<p>Bulk '' @ e @ ''</p>'') 2))
       = [OnEmailSent ''a@x.com'' ''mock-id'', OnEmailSent ''b@x.com'' ''mock-id'',
          OnBulkConfirmationComplete 2 2]
   \<and> map mail_to (outbox (snd (sendBulkConfirmation always_succeeds
            (mailer_with [''a@x.com'', ''b@x.com''])
            (\<lambda>e. ''Bulk '' @ e) (\<lambda>e. ''<p>Bulk '' @ e @ ''</p>'') 2)))
       = [''a@x.com'', ''b@x.com'']
   \<and> fst (sendBulkConfirmation always_fails (mailer_with [''a@x.com'', ''b@x.com''])
            (\<lambda>e. ''Bulk '' @ e) (\<lambda>e. ''<p>Bulk '' @ e @ ''</p>'') 1) = 0
   \<and> map mail_to (outbox (snd (sendBulkConfirmation always_fails
            (mailer_with [''a@x.com'', ''b@x.com''])
            (\<lambda>e. ''Bulk '' @ e) (\<lambda>e. ''<p>Bulk '' @ e @ ''</p>'') 1)))
       = [''a@x.com'', ''a@x.com'', ''b@x.com'', ''b@x.com'']"
proof -
  have a: "truthy (auth_user (mailer_with [''a@x.com'', ''b@x.com'']))"
    by (simp add: mailer_with_def local_mailer_def)
  have b: "\<forall>h m. \<not> isl (always_succeeds h m)"
    by (simp add: always_succeeds_def)
  have c: "set_size (waitlist (mailer_with [''a@x.com'', ''b@x.com''])) = 2"
    by (simp add: mailer_with_def set_size_def)
  have d: "events (snd (sendBulkConfirmation always_succeeds (mailer_with [''a@x.com'', ''b@x.com''])
            (\<lambda>e. ''Bulk '' @ e) (\<lambda>e. ''<p>Bulk '' @ e @ ''</p>'') 2))
       = [OnEmailSent ''a@x.com'' ''mock-id'', OnEmailSent ''b@x.com'' ''mock-id'',
          OnBulkConfirmationComplete 2 2]"
    by code_simp
  have e: "map mail_to (outbox (snd (sendBulkConfirmation always_succeeds
            (mailer_with [''a@x.com'', ''b@x.com''])
            (\<lambda>e. ''Bulk '' @ e) (\<lambda>e. ''<p>Bulk '' @ e @ ''</p>'') 2)))
       = [''a@x.com'', ''b@x.com'']"
    by code_simp
  have f: "fst (sendBulkConfirmation always_fails (mailer_with [''a@x.com'', ''b@x.com''])
            (\<lambda>e. ''Bulk '' @ e) (\<lambda>e. ''<p>Bulk '' @ e @ ''</p>'') 1) = 0"
    by code_simp
  have g: "map mail_to (outbox (snd (sendBulkConfirmation always_fails
            (mailer_with [''a@x.com'', ''b@x.com''])
            (\<lambda>e. ''Bulk '' @ e) (\<lambda>e. ''<p>Bulk '' @ e @ ''</p>'') 1)))
       = [''a@x.com'', ''a@x.com'', ''b@x.com'', ''b@x.com'']"
    by code_simp
  have "fst (sendBulkConfirmation always_succeeds (mailer_with [''a@x.com'', ''b@x.com''])
            (\<lambda>e. ''Bulk '' @ e) (\<lambda>e. ''<p>Bulk '' @ e @ ''</p>'') 2) = 2"
  proof -
    have "0 \<le> (2::int) \<and> truthy (auth_user (mailer_with [''a@x.com'', ''b@x.com'']))
            \<and> (\<forall>h m. \<not> isl (always_succeeds h m))
          \<longrightarrow> fst (sendBulkConfirmation always_succeeds (mailer_with [''a@x.com'', ''b@x.com''])
                (\<lambda>e. ''Bulk '' @ e) (\<lambda>e. ''<p>Bulk '' @ e @ ''</p>'') 2)
              = set_size (waitlist (mailer_with [''a@x.com'', ''b@x.com'']))"
      using sendBulkConfirmation_counts [of always_succeeds
          "mailer_with [''a@x.com'', ''b@x.com'']"
          "\<lambda>e. ''Bulk '' @ e" "\<lambda>e. ''<p>Bulk '' @ e @ ''</p>''" 2 "''a@x.com''"]
      by (elim conjE)
    with a b c show ?thesis
      by simp
  qed
  with a b d e f g show ?thesis
    by simp
qed

subsection \<open>Placeholders: what one pass of \<^verbatim>\<open>replace\<close> does to a template\<close>

lemma ident_char_not_space: "ident_char c \<Longrightarrow> \<not> is_space c"
  by (auto simp: ident_char_def is_space_def is_digit_def)

lemma ident_char_not_brace: "ident_char c \<Longrightarrow> c \<noteq> CHR ''{'' \<and> c \<noteq> CHR ''}''"
  by (auto simp: ident_char_def is_digit_def)

lemma is_space_not_brace: "is_space c \<Longrightarrow> c \<noteq> CHR ''{'' \<and> c \<noteq> CHR ''}''"
  by (auto simp: is_space_def)

lemma ident_key_chars: "ident_key k \<Longrightarrow> k \<noteq> [] \<and> (\<forall>c\<in>set k. ident_char c)"
  by (cases k) (auto simp: ident_key_def list_all_iff)

lemma strip_prefix_append: "strip_prefix p (p @ r) = Some r"
  by (simp add: strip_prefix_def)

lemma strip_prefix_Some: "strip_prefix p s = Some r \<Longrightarrow> s = p @ r"
  by (metis append_take_drop_id option.distinct(1) option.inject strip_prefix_def)

lemma match_placeholder_head: "c \<noteq> CHR ''{'' \<Longrightarrow> match_placeholder key (c # s) = None"
  by (simp add: match_placeholder_def strip_prefix_def)

lemma match_placeholder_second: "d \<noteq> CHR ''{'' \<Longrightarrow> match_placeholder key (c # d # s) = None"
  by (simp add: match_placeholder_def strip_prefix_def)

lemma get_substitution_plain:
  "CHR 0x24 \<notin> set v \<Longrightarrow> get_substitution matched preceding following v = v"
  by (induction matched preceding following v rule: get_substitution.induct) auto


lemma dropWhile_space_key:
  assumes "list_all is_space a" and "ident_key k"
  shows "dropWhile is_space (a @ k @ r) = k @ r"
proof -
  obtain c k' where k: "k = c # k'" and c: "ident_char c"
    using assms(2) ident_key_chars [of k] by (cases k) auto
  have "dropWhile is_space (a @ k @ r) = dropWhile is_space (k @ r)"
    using assms(1) by (simp add: list_all_iff)
  also have "\<dots> = k @ r"
    using c ident_char_not_space by (simp add: k)
  finally show ?thesis .
qed

lemma dropWhile_space_close:
  assumes "list_all is_space b"
  shows "dropWhile is_space (b @ ''}}'' @ r) = ''}}'' @ r"
proof -
  have "dropWhile is_space (b @ ''}}'' @ r) = dropWhile is_space (''}}'' @ r)"
    using assms by (simp add: list_all_iff)
  also have "\<dots> = ''}}'' @ r"
    by (simp add: is_space_def)
  finally show ?thesis .
qed

lemma strip_prefix_other_key:
  assumes k: "ident_key k" and key: "ident_key key" and ne: "k \<noteq> key"
    and b: "list_all is_space b" and s: "strip_prefix key (k @ b @ ''}}'' @ rest) = Some r2"
  shows "strip_prefix ''}}'' (dropWhile is_space r2) = None"
proof -
  have eq: "key @ r2 = k @ b @ ''}}'' @ rest"
    using strip_prefix_Some [OF s] by simp
  then consider us where "key = k @ us" "us @ r2 = b @ ''}}'' @ rest"
    | us where "key @ us = k" "r2 = us @ b @ ''}}'' @ rest"
    by (auto simp: append_eq_append_conv2)
  then show ?thesis
  proof cases
    case 1
    with ne obtain c us' where us: "us = c # us'"
      by (cases us) auto
    have "ident_char c"
      using key ident_key_chars [of key] 1(1) us by simp
    then have c: "\<not> is_space c" "c \<noteq> CHR ''}''"
      using ident_char_not_space ident_char_not_brace by blast+
    have False
    proof (cases b)
      case Nil
      with 1(2) us c show False by simp
    next
      case (Cons x b')
      with 1(2) us have "c = x" by simp
      with b Cons c show False by simp
    qed
    then show ?thesis ..
  next
    case 2
    with ne obtain c us' where us: "us = c # us'"
      by (cases us) auto
    have "ident_char c"
      using k ident_key_chars [of k] 2(1) us by auto
    then have c: "\<not> is_space c" "c \<noteq> CHR ''}''"
      using ident_char_not_space ident_char_not_brace by blast+
    then show ?thesis
      by (simp add: 2(2) us strip_prefix_def)
  qed
qed

lemma match_placeholder_same:
  assumes a: "list_all is_space a" and b: "list_all is_space b" and k: "ident_key k"
  shows "match_placeholder k (''{{'' @ a @ k @ b @ ''}}'' @ rest)
           = Some (length a + length k + length b + 3)"
proof -
  have open_brace: "strip_prefix ''{{'' (''{{'' @ a @ k @ b @ ''}}'' @ rest)
                      = Some (a @ k @ b @ ''}}'' @ rest)"
    by (rule strip_prefix_append)
  have d1: "dropWhile is_space (a @ k @ b @ ''}}'' @ rest) = k @ b @ ''}}'' @ rest"
    using a k by (rule dropWhile_space_key)
  have s2: "strip_prefix k (k @ b @ ''}}'' @ rest) = Some (b @ ''}}'' @ rest)"
    by (rule strip_prefix_append)
  have d2: "dropWhile is_space (b @ ''}}'' @ rest) = ''}}'' @ rest"
    using b by (rule dropWhile_space_close)
  have s3: "strip_prefix ''}}'' (''}}'' @ rest) = Some rest"
    by (rule strip_prefix_append)
  have "match_placeholder k (''{{'' @ a @ k @ b @ ''}}'' @ rest)
          = Some (length (''{{'' @ a @ k @ b @ ''}}'' @ rest) - length rest - 1)"
    by (simp only: match_placeholder_def open_brace d1 s2 d2 s3 option.case)
  then show ?thesis by simp
qed

lemma match_placeholder_other:
  assumes a: "list_all is_space a" and b: "list_all is_space b"
    and k: "ident_key k" and key: "ident_key key" and ne: "k \<noteq> key"
  shows "match_placeholder key (''{{'' @ a @ k @ b @ ''}}'' @ rest) = None"
proof -
  have open_brace: "strip_prefix ''{{'' (''{{'' @ a @ k @ b @ ''}}'' @ rest)
                      = Some (a @ k @ b @ ''}}'' @ rest)"
    by (rule strip_prefix_append)
  have d1: "dropWhile is_space (a @ k @ b @ ''}}'' @ rest) = k @ b @ ''}}'' @ rest"
    using a k by (rule dropWhile_space_key)
  show ?thesis
  proof (cases "strip_prefix key (k @ b @ ''}}'' @ rest)")
    case None
    show ?thesis
      by (simp only: match_placeholder_def open_brace d1 None option.case)
  next
    case (Some r2)
    have s3: "strip_prefix ''}}'' (dropWhile is_space r2) = None"
      using k key ne b Some by (rule strip_prefix_other_key)
    show ?thesis
      by (simp only: match_placeholder_def open_brace d1 Some s3 option.case)
  qed
qed

lemma replace_no_match:
  "m (c # cs) = None \<Longrightarrow>
     js_replace_all m v scanned (c # cs) = c # js_replace_all m v (scanned @ [c]) cs"
  by simp

lemma replace_match:
  assumes "m (tok @ rest) = Some (length tok - 1)" and "tok \<noteq> []"
  shows "js_replace_all m v scanned (tok @ rest)
           = get_substitution tok scanned rest v @ js_replace_all m v (scanned @ tok) rest"
proof -
  obtain c cs where tok: "tok = c # cs"
    using assms(2) by (cases tok) auto
  have m: "m (c # cs @ rest) = Some (length cs)"
    using assms(1) by (simp add: tok)
  have "js_replace_all m v scanned (c # cs @ rest)
          = get_substitution (take (Suc (length cs)) (c # cs @ rest)) scanned
              (drop (length cs) (cs @ rest)) v
            @ js_replace_all m v (scanned @ take (Suc (length cs)) (c # cs @ rest))
                (drop (length cs) (cs @ rest))"
    by (simp only: js_replace_all.simps m option.case)
  then show ?thesis
    by (simp add: tok)
qed

lemma replace_plain_text:
  "plain_text t \<Longrightarrow>
     js_replace_all (match_placeholder key) v scanned (t @ rest)
       = t @ js_replace_all (match_placeholder key) v (scanned @ t) rest"
proof (induction t arbitrary: scanned rule: plain_text.induct)
  case 1
  show ?case by simp
next
  case (2 c)
  then have "match_placeholder key (c # rest) = None"
    by (simp add: match_placeholder_head)
  then have "js_replace_all (match_placeholder key) v scanned (c # rest)
          = c # js_replace_all (match_placeholder key) v (scanned @ [c]) rest"
    by (rule replace_no_match)
  then show ?case by simp
next
  case (3 c d r)
  from "3.prems" have nb: "c \<noteq> CHR ''{'' \<or> d \<noteq> CHR ''{''" and rest: "plain_text (d # r)"
    by auto
  have none: "match_placeholder key (c # d # r @ rest) = None"
  proof (cases "c = CHR ''{''")
    case True
    with nb have "d \<noteq> CHR ''{''" by simp
    then show ?thesis by (rule match_placeholder_second)
  next
    case False
    then show ?thesis by (rule match_placeholder_head)
  qed
  have "js_replace_all (match_placeholder key) v scanned (c # d # r @ rest)
          = c # js_replace_all (match_placeholder key) v (scanned @ [c]) (d # r @ rest)"
    using none by (rule replace_no_match)
  also have "\<dots> = c # (d # r) @ js_replace_all (match_placeholder key) v ((scanned @ [c]) @ d # r) rest"
    using "3.IH" [OF rest, of "scanned @ [c]"] by (simp only: append_Cons)
  finally show ?case by (simp only: append_Cons append_assoc append_Nil)
qed


lemma plain_text_no_brace: "CHR ''{'' \<notin> set u \<Longrightarrow> plain_text u"
  by (induction u rule: plain_text.induct) auto

lemma plain_text_brace_first: "CHR ''{'' \<notin> set u \<Longrightarrow> u \<noteq> [] \<Longrightarrow> plain_text (CHR ''{'' # u)"
  by (cases u) (auto simp: plain_text_no_brace)

lemma token_tail_no_brace:
  assumes "list_all is_space a" and "list_all is_space b" and "ident_key k"
  shows "CHR ''{'' \<notin> set (a @ k @ b @ ''}}'')"
proof -
  have "c \<noteq> CHR ''{''" if "c \<in> set a \<union> set b" for c
    using that assms(1,2) is_space_not_brace [of c] by (auto simp: list_all_iff)
  moreover have "c \<noteq> CHR ''{''" if "c \<in> set k" for c
    using that ident_key_chars [OF assms(3)] ident_char_not_brace [of c] by simp
  ultimately show ?thesis by auto
qed

lemma replace_other_token:
  assumes a: "list_all is_space a" and b: "list_all is_space b"
    and k: "ident_key k" and key: "ident_key key" and ne: "k \<noteq> key"
  shows "js_replace_all (match_placeholder key) v scanned (''{{'' @ a @ k @ b @ ''}}'' @ rest)
           = ''{{'' @ a @ k @ b @ ''}}''
               @ js_replace_all (match_placeholder key) v (scanned @ ''{{'' @ a @ k @ b @ ''}}'') rest"
proof -
  let ?u = "a @ k @ b @ ''}}''"
  have none: "match_placeholder key (CHR ''{'' # (CHR ''{'' # ?u) @ rest) = None"
    using match_placeholder_other [OF a b k key ne, of rest] by simp
  have plain: "plain_text (CHR ''{'' # ?u)"
    using token_tail_no_brace [OF a b k] by (intro plain_text_brace_first) simp_all
  have "js_replace_all (match_placeholder key) v scanned (CHR ''{'' # (CHR ''{'' # ?u) @ rest)
          = CHR ''{'' # js_replace_all (match_placeholder key) v (scanned @ ''{'')
                          ((CHR ''{'' # ?u) @ rest)"
    using none by (rule replace_no_match)
  also have "\<dots> = CHR ''{'' # (CHR ''{'' # ?u)
                  @ js_replace_all (match_placeholder key) v ((scanned @ ''{'') @ CHR ''{'' # ?u) rest"
    by (simp only: replace_plain_text [OF plain])
  finally show ?thesis by simp
qed

lemma replace_same_token:
  assumes a: "list_all is_space a" and b: "list_all is_space b" and k: "ident_key k"
    and v: "CHR 0x24 \<notin> set v"
  shows "js_replace_all (match_placeholder k) v scanned (''{{'' @ a @ k @ b @ ''}}'' @ rest)
           = v @ js_replace_all (match_placeholder k) v (scanned @ ''{{'' @ a @ k @ b @ ''}}'') rest"
proof -
  let ?tok = "''{{'' @ a @ k @ b @ ''}}''"
  have m: "match_placeholder k (?tok @ rest) = Some (length ?tok - 1)"
    using match_placeholder_same [OF a b k, of rest] by simp
  have "js_replace_all (match_placeholder k) v scanned (?tok @ rest)
          = get_substitution ?tok scanned rest v
              @ js_replace_all (match_placeholder k) v (scanned @ ?tok) rest"
    using m by (rule replace_match) simp
  then show ?thesis
    using v by (simp add: get_substitution_plain)
qed

lemma render_Cons: "render (p # ps) = render_piece p @ render ps"
  by (simp add: render_def)

lemma replace_render:
  assumes key: "ident_key key" and v: "CHR 0x24 \<notin> set v"
  shows "list_all wf_piece ps \<Longrightarrow>
           js_replace_all (match_placeholder key) v scanned (render ps)
             = render (map (fill [key \<mapsto> v]) ps)"
proof (induction ps arbitrary: scanned)
  case Nil
  show ?case by (simp add: render_def)
next
  case (Cons p ps)
  from Cons.prems have wf: "wf_piece p" and wfs: "list_all wf_piece ps"
    by simp_all
  note IH = Cons.IH [OF wfs]
  show ?case
  proof (cases p)
    case (Text t)
    with wf have "plain_text t" by simp
    then have "js_replace_all (match_placeholder key) v scanned (t @ render ps)
                 = t @ render (map (fill [key \<mapsto> v]) ps)"
      by (simp only: replace_plain_text IH)
    then show ?thesis
      by (simp only: render_Cons Text render_piece.simps list.map fill.simps)
  next
    case (Placeholder a k b)
    with wf have a: "list_all is_space a" and k: "ident_key k" and b: "list_all is_space b"
      by simp_all
    show ?thesis
    proof (cases "k = key")
      case True
      have lhs: "render (p # ps) = ''{{'' @ a @ key @ b @ ''}}'' @ render ps"
        by (simp add: render_Cons Placeholder True)
      have rhs: "render (map (fill [key \<mapsto> v]) (p # ps))
                   = v @ render (map (fill [key \<mapsto> v]) ps)"
        by (simp add: render_Cons Placeholder True)
      have "js_replace_all (match_placeholder key) v scanned
              (''{{'' @ a @ key @ b @ ''}}'' @ render ps)
              = v @ js_replace_all (match_placeholder key) v
                      (scanned @ ''{{'' @ a @ key @ b @ ''}}'') (render ps)"
        using a b key v by (rule replace_same_token)
      then have "js_replace_all (match_placeholder key) v scanned
              (''{{'' @ a @ key @ b @ ''}}'' @ render ps)
              = v @ render (map (fill [key \<mapsto> v]) ps)"
        by (simp only: IH)
      then show ?thesis
        unfolding lhs rhs .
    next
      case False
      have lhs: "render (p # ps) = ''{{'' @ a @ k @ b @ ''}}'' @ render ps"
        by (simp add: render_Cons Placeholder)
      have rhs: "render (map (fill [key \<mapsto> v]) (p # ps))
                   = ''{{'' @ a @ k @ b @ ''}}'' @ render (map (fill [key \<mapsto> v]) ps)"
        using False by (simp add: render_Cons Placeholder)
      have "js_replace_all (match_placeholder key) v scanned
              (''{{'' @ a @ k @ b @ ''}}'' @ render ps)
              = ''{{'' @ a @ k @ b @ ''}}'' @ render (map (fill [key \<mapsto> v]) ps)"
        using IH by (simp only: replace_other_token [OF a b k key False])
      then show ?thesis
        unfolding lhs rhs .
    qed
  qed
qed

lemma wf_fill: "wf_piece p \<Longrightarrow> plain_text v \<Longrightarrow> wf_piece (fill [key \<mapsto> v] p)"
  by (cases p) simp_all

lemma fill_fill: "fill vars (fill [key \<mapsto> v] p) = fill (vars(key \<mapsto> v)) p"
  by (cases p) simp_all

lemma substitute_render:
  "list_all wf_piece ps \<Longrightarrow> list_all (\<lambda>(k, v). ident_key k \<and> safe_value v) entries \<Longrightarrow>
     substitute entries (render ps) = Some (render (map (fill (map_of entries)) ps))"
proof (induction entries arbitrary: ps)
  case Nil
  have "map (fill Map.empty) ps = ps"
    by (rule map_idI) (case_tac x, simp_all)
  then show ?case by simp
next
  case (Cons entry entries)
  obtain key v where entry: "entry = (key, v)"
    by (cases entry)
  from Cons.prems(2) have key: "ident_key key" and v: "safe_value v"
    and rest: "list_all (\<lambda>(k, v). ident_key k \<and> safe_value v) entries"
    by (simp_all add: entry)
  from v have plain: "plain_text v" and dollar: "CHR 0x24 \<notin> set v"
    by (simp_all add: safe_value_def)
  let ?ps = "map (fill [key \<mapsto> v]) ps"
  have wf: "list_all wf_piece ?ps"
    using Cons.prems(1) plain by (simp add: list_all_iff wf_fill)
  have pass: "js_replace_all (match_placeholder key) v [] (render ps) = render ?ps"
    using key dollar Cons.prems(1) by (rule replace_render)
  have "substitute (entry # entries) (render ps) = substitute entries (render ?ps)"
    using key by (simp add: entry compile_placeholder_def pass)
  also have "\<dots> = Some (render (map (fill (map_of entries)) ?ps))"
    using wf rest by (rule Cons.IH)
  also have "map (fill (map_of entries)) ?ps = map (fill (map_of (entry # entries))) ps"
    by (simp add: entry fill_fill)
  finally show ?case .
qed

lemma update_preserves:
  "list_all P al \<Longrightarrow> P (k, v) \<Longrightarrow> list_all P (AList.update k v al)"
  by (induction al) auto

lemma fold_update_preserves:
  "list_all P base \<Longrightarrow> list_all P repl \<Longrightarrow>
     list_all P (fold (\<lambda>(k, v) al. AList.update k v al) repl base)"
proof (induction repl arbitrary: base)
  case Nil
  then show ?case by simp
next
  case (Cons entry repl)
  obtain k v where entry: "entry = (k, v)"
    by (cases entry)
  have "list_all P (AList.update k v base)"
    using Cons.prems by (intro update_preserves) (simp_all add: entry)
  then show ?case
    using Cons.prems Cons.IH [of "AList.update k v base"] by (simp add: entry)
qed

lemma map_of_fold_update:
  "distinct (map fst repl) \<Longrightarrow>
     map_of (fold (\<lambda>(k, v) al. AList.update k v al) repl base) = map_of base ++ map_of repl"
proof (induction repl arbitrary: base)
  case Nil
  show ?case by simp
next
  case (Cons entry repl)
  obtain k v where entry: "entry = (k, v)"
    by (cases entry)
  from Cons.prems have fresh: "k \<notin> fst ` set repl" and dist: "distinct (map fst repl)"
    by (simp_all add: entry)
  have "map_of (fold (\<lambda>(k, v) al. AList.update k v al) (entry # repl) base)
          = map_of (AList.update k v base) ++ map_of repl"
    using Cons.IH [OF dist, of "AList.update k v base"] by (simp add: entry)
  also have "\<dots> = (map_of base)(k \<mapsto> v) ++ map_of repl"
    by (simp add: update_conv')
  also have "\<dots> = map_of base ++ (map_of repl)(k \<mapsto> v)"
  proof (rule ext)
    fix x
    show "((map_of base)(k \<mapsto> v) ++ map_of repl) x = (map_of base ++ (map_of repl)(k \<mapsto> v)) x"
    proof -
      have "map_of repl k = None"
        using fresh by (simp add: map_of_eq_None_iff)
      then show ?thesis
        by (auto simp: map_add_def split: option.split)
    qed
  qed
  finally have "map_of (fold (\<lambda>(k, v) al. AList.update k v al) (entry # repl) base)
                  = map_of base ++ (map_of repl)(k \<mapsto> v)" .
  moreover have "map_of (entry # repl) = (map_of repl)(k \<mapsto> v)"
    by (simp add: entry)
  ultimately show ?case
    by (simp only:)
qed

lemma templateVariables_entries:
  assumes "list_all ident_key (map fst replacements)"
    and "list_all safe_value (email # company # map snd replacements)"
  shows "list_all (\<lambda>(k, v). ident_key k \<and> safe_value v)
           (templateVariables email company replacements)"
proof -
  have base: "list_all (\<lambda>(k, v). ident_key k \<and> safe_value v)
                [(''email'', email), (''companyName'', company)]"
    using assms(2) by (simp add: ident_key_def ident_char_def is_digit_def)
  have repl: "list_all (\<lambda>(k, v). ident_key k \<and> safe_value v) replacements"
    using assms by (auto simp: list_all_iff)
  show ?thesis
    unfolding templateVariables_def using base repl by (rule fold_update_preserves)
qed

lemma templateVariables_map:
  "distinct (map fst replacements) \<Longrightarrow>
     map_of (templateVariables email company replacements)
       = map_of [(''email'', email), (''companyName'', company)] ++ map_of replacements"
  by (simp only: templateVariables_def map_of_fold_update)

text \<open>
  C6 as stated fails in two ways. A value is not inserted as it is: the template
  \<^verbatim>\<open>Hi {{name}}\<close> with the value \<^verbatim>\<open>A$&B\<close> for \<^verbatim>\<open>name\<close> is sent as \<^verbatim>\<open>Hi A{{name}}B\<close>, since
  \<^verbatim>\<open>replace\<close> reads \<^verbatim>\<open>$&\<close> as the matched text. And the keys are applied one after the
  other to the result of the pass before: the template \<^verbatim>\<open>{{first}}\<close> with the values
  \<^verbatim>\<open>{{second}}\<close> for \<^verbatim>\<open>first\<close> and \<^verbatim>\<open>X\<close> for \<^verbatim>\<open>second\<close> is sent as \<^verbatim>\<open>X\<close>. Replacing each
  token by the value of its key gives \<^verbatim>\<open>Hi A$&B\<close> and \<^verbatim>\<open>{{second}}\<close>.
\<close>

theorem template_substitution_counterexample:
  "map mail_html (outbox (snd (the (sendConfirmationFromFile (\<lambda>p. Inr ''Hi {{name}}'')
       always_succeeds (mailer_with [''a@x.com'']) ''a@x.com'' (\<lambda>e. ''Welcome'') ''welcome.html''
       [(''name'', ''A$&B'')])))) = [''Hi A{{name}}B'']
   \<and> render (map (fill (map_of [(''name'', ''A$&B'')])) [Text ''Hi '', Placeholder [] ''name'' []])
       = ''Hi A$&B''
   \<and> render [Text ''Hi '', Placeholder [] ''name'' []] = ''Hi {{name}}''
   \<and> map mail_html (outbox (snd (the (sendConfirmationFromFile (\<lambda>p. Inr ''{{first}}'')
       always_succeeds (mailer_with [''a@x.com'']) ''a@x.com'' (\<lambda>e. ''Welcome'') ''welcome.html''
       [(''first'', ''{{second}}''), (''second'', ''X'')])))) = [''X'']
   \<and> render (map (fill (map_of [(''first'', ''{{second}}''), (''second'', ''X'')]))
         [Placeholder [] ''first'' []]) = ''{{second}}''"
  by code_simp

text \<open>
  C6, amended. Take an address in the waitlist. If the template file cannot be
  read, the call emits \<open>onError\<close>, returns false and hands nothing to the
  transport. If it is read, and the template is text with \<^verbatim>\<open>{{key}}\<close> tokens (white
  space allowed inside the braces, keys spelled like identifiers, the text
  between tokens without two opening braces in a row and not ending in one),
  and the replacement keys are distinct and spelled like identifiers, and the
  address, the company name and the replacement values have no dollar sign, no
  two opening braces in a row and no opening brace at the end: then the body
  handed to \<open>sendMail\<close> is the template with every token whose key is \<^verbatim>\<open>email\<close>,
  \<^verbatim>\<open>companyName\<close> or a replacement key replaced by the value of that key, a
  replacement overriding the two defaults, and every other token unchanged.
\<close>

theorem sendConfirmationFromFile_substitutes:
  assumes "set_has (waitlist s) email"
  shows "(readFile path = Inl err \<longrightarrow>
            sendConfirmationFromFile readFile tr s email subjectTemplate path replacements
              = Some (False, handleError s email ''sendConfirmationFromFile'' err)
            \<and> outbox (handleError s email ''sendConfirmationFromFile'' err) = outbox s)
       \<and> (readFile path = Inr (render ps) \<and> list_all wf_piece ps
            \<and> distinct (map fst replacements) \<and> list_all ident_key (map fst replacements)
            \<and> list_all safe_value (email # companyName s # map snd replacements)
          \<longrightarrow> sendConfirmationFromFile readFile tr s email subjectTemplate path replacements
                = Some (sendMail tr s email (subjectTemplate email)
                    (render (map (fill (map_of [(''email'', email), (''companyName'', companyName s)]
                                          ++ map_of replacements)) ps))))"
proof (intro conjI impI)
  assume "readFile path = Inl err"
  with assms show "sendConfirmationFromFile readFile tr s email subjectTemplate path replacements
              = Some (False, handleError s email ''sendConfirmationFromFile'' err)"
    by (simp add: sendConfirmationFromFile_def)
next
  show "outbox (handleError s email ''sendConfirmationFromFile'' err) = outbox s"
    by (simp add: handleError_def emit_def)
next
  assume h: "readFile path = Inr (render ps) \<and> list_all wf_piece ps
            \<and> distinct (map fst replacements) \<and> list_all ident_key (map fst replacements)
            \<and> list_all safe_value (email # companyName s # map snd replacements)"
  let ?vars = "templateVariables email (companyName s) replacements"
  have entries: "list_all (\<lambda>(k, v). ident_key k \<and> safe_value v) ?vars"
    using h by (intro templateVariables_entries) blast+
  have "substitute ?vars (render ps) = Some (render (map (fill (map_of ?vars)) ps))"
    using h entries by (intro substitute_render) blast+
  moreover have "map_of ?vars
      = map_of [(''email'', email), (''companyName'', companyName s)] ++ map_of replacements"
    using h by (intro templateVariables_map) blast
  ultimately have "substitute ?vars (render ps)
      = Some (render (map (fill (map_of [(''email'', email), (''companyName'', companyName s)]
                                   ++ map_of replacements)) ps))"
    by (simp only:)
  with assms h show "sendConfirmationFromFile readFile tr s email subjectTemplate path replacements
                = Some (sendMail tr s email (subjectTemplate email)
                    (render (map (fill (map_of [(''email'', email), (''companyName'', companyName s)]
                                          ++ map_of replacements)) ps)))"
    by (simp add: sendConfirmationFromFile_def del: js_replace_all.simps)
qed

theorem sendConfirmationFromFile_substitutes_witness:
  "set_has (waitlist (mailer_with [''a@x.com''])) ''a@x.com''
   \<and> list_all wf_piece welcome_template
   \<and> distinct (map fst [(''customMessage'', ''Glad to have you'')])
   \<and> list_all ident_key (map fst [(''customMessage'', ''Glad to have you'')])
   \<and> list_all safe_value (''a@x.com'' # companyName (mailer_with [''a@x.com''])
         # map snd [(''customMessage'', ''Glad to have you'')])
   \<and> render welcome_template
       = ''<h1>Welcome, {{email}}!</h1><p>Thanks for joining {{ companyName }}. {{customMessage}} {{unknown}}</p>''
   \<and> map mail_html (outbox (snd (the (sendConfirmationFromFile (\<lambda>p. Inr (render welcome_template))
         always_succeeds (mailer_with [''a@x.com'']) ''a@x.com'' (\<lambda>e. ''Welcome'') ''welcome.html''
         [(''customMessage'', ''Glad to have you'')]))))
       = [''<h1>Welcome, a@x.com!</h1><p>Thanks for joining TestCo. Glad to have you {{unknown}}</p>'']
   \<and> sendConfirmationFromFile (\<lambda>p. Inl ''ENOENT'') always_succeeds (mailer_with [''a@x.com''])
         ''a@x.com'' (\<lambda>e. ''Welcome'') ''missing.html'' [(''customMessage'', ''Glad to have you'')]
       = Some (False, handleError (mailer_with [''a@x.com'']) ''a@x.com''
                 ''sendConfirmationFromFile'' ''ENOENT'')"
proof -
  let ?m = "mailer_with [''a@x.com'']"
  let ?r = "[(''customMessage'', ''Glad to have you'')]"
  have a: "set_has (waitlist ?m) ''a@x.com''"
    by (simp add: set_has_def mailer_with_def)
  have b: "list_all wf_piece welcome_template"
    by code_simp
  have c: "distinct (map fst ?r)" "list_all ident_key (map fst ?r)"
    by code_simp+
  have d: "list_all safe_value (''a@x.com'' # companyName ?m # map snd ?r)"
    by code_simp
  have e: "render welcome_template
       = ''<h1>Welcome, {{email}}!</h1><p>Thanks for joining {{ companyName }}. {{customMessage}} {{unknown}}</p>''"
    by code_simp
  have f: "map mail_html (outbox (snd (sendMail always_succeeds ?m ''a@x.com'' ''Welcome''
        (render (map (fill (map_of [(''email'', ''a@x.com''), (''companyName'', companyName ?m)]
                              ++ map_of ?r)) welcome_template)))))
       = [''<h1>Welcome, a@x.com!</h1><p>Thanks for joining TestCo. Glad to have you {{unknown}}</p>'']"
    by code_simp
  have g: "sendConfirmationFromFile (\<lambda>p. Inr (render welcome_template)) always_succeeds ?m
        ''a@x.com'' (\<lambda>e. ''Welcome'') ''welcome.html'' ?r
      = Some (sendMail always_succeeds ?m ''a@x.com'' ''Welcome''
        (render (map (fill (map_of [(''email'', ''a@x.com''), (''companyName'', companyName ?m)]
                              ++ map_of ?r)) welcome_template)))"
    using sendConfirmationFromFile_substitutes [OF a,
        of "\<lambda>p. Inr (render welcome_template)" "''welcome.html''" "''ENOENT''" always_succeeds
           "\<lambda>e. ''Welcome''" ?r welcome_template] b c d
    by blast
  have h: "sendConfirmationFromFile (\<lambda>p. Inl ''ENOENT'') always_succeeds ?m
         ''a@x.com'' (\<lambda>e. ''Welcome'') ''missing.html'' ?r
       = Some (False, handleError ?m ''a@x.com'' ''sendConfirmationFromFile'' ''ENOENT'')"
    using sendConfirmationFromFile_substitutes [OF a,
        of "\<lambda>p. Inl ''ENOENT''" "''missing.html''" "''ENOENT''" always_succeeds
           "\<lambda>e. ''Welcome''" ?r welcome_template]
    by blast
  have "map mail_html (outbox (snd (the (sendConfirmationFromFile (\<lambda>p. Inr (render welcome_template))
         always_succeeds ?m ''a@x.com'' (\<lambda>e. ''Welcome'') ''welcome.html'' ?r))))
       = [''<h1>Welcome, a@x.com!</h1><p>Thanks for joining TestCo. Glad to have you {{unknown}}</p>'']"
    unfolding g option.sel by (rule f)
  with a b c d e h show ?thesis
    by blast
qed

end
